theory Spec2Isabelle
  imports Main
begin

section \<open>Persisted schema (db/Database.cpp, setupTables)\<close>

text \<open>
  The three tables of \<^verbatim>\<open>ehs.db\<close>. A table is the list of its rows in rowid order. Columns
  that \<^verbatim>\<open>INSERT\<close> leaves out are NULL, so they are optional texts. The key columns
  \<^verbatim>\<open>id INTEGER PRIMARY KEY AUTOINCREMENT\<close> are integers; \<^verbatim>\<open>worker_id\<close> is only ever
  written and compared through \<^verbatim>\<open>sqlite3_bind_int\<close>, so it is kept as the integer that
  was bound. Row ids stay far below \<open>2^31\<close>, so \<^verbatim>\<open>sqlite3_column_int\<close> returns them
  unchanged.
\<close>

record user_row =
  user_id :: int
  username :: string
  password :: string
  role :: string

record task_row =
  task_id :: int
  worker_id :: int
  worker_username :: string
  task_description :: string
  status :: string
  violation_comment :: "string option"
  violation_timestamp :: "string option"
  worker_report :: "string option"
  worker_media :: "string option"

record rule_row =
  rule_id :: int
  rule_text :: string
  feedback :: "string option"
  timestamp :: string

text \<open>
  \<open>tasks_seq\<close> and \<open>rules_seq\<close> are the \<^verbatim>\<open>sqlite_sequence\<close> entries that AUTOINCREMENT
  keeps: the largest rowid the table has ever held.
\<close>

record database =
  users :: "user_row list"
  tasks :: "task_row list"
  rules :: "rule_row list"
  tasks_seq :: int
  rules_seq :: int

section \<open>The console: std::cin\<close>

text \<open>
  \<^verbatim>\<open>std::cin\<close> is the characters not yet consumed and the stream's \<^verbatim>\<open>failbit\<close>. The
  \<^verbatim>\<open>eofbit\<close> is not kept apart: at the end of the input every extraction fails whether
  it is set or not.
\<close>

record istream =
  buf :: string
  failbit :: bool

definition isspace :: "char \<Rightarrow> bool" where
  "isspace c = (c \<in> set [CHR '' '', CHR 0x09, CHR 0x0A, CHR 0x0B, CHR 0x0C, CHR 0x0D])"

definition isdigit :: "char \<Rightarrow> bool" where
  "isdigit c = (c \<in> set ''0123456789'')"

definition digit_value :: "char \<Rightarrow> int" where
  "digit_value c = int (of_char c) - 48"

definition decimal :: "string \<Rightarrow> int" where
  "decimal ds = foldl (\<lambda>a c. 10 * a + digit_value c) 0 ds"

definition INT_MAX :: int where
  "INT_MAX = 2147483647"

definition INT_MIN :: int where
  "INT_MIN = - 2147483648"

text \<open>
  \<^verbatim>\<open>std::cin >> n\<close> for an \<^verbatim>\<open>int\<close>: nothing happens on a failed stream; otherwise white
  space is skipped, then an optional sign and the decimal digits are consumed. The
  result is \<open>None\<close> exactly when \<^verbatim>\<open>cin.fail()\<close> holds afterwards (end of input, no
  digit, or a value outside \<^verbatim>\<open>int\<close>).
\<close>

definition extract_int :: "istream \<Rightarrow> int option \<times> istream" where
  "extract_int s =
     (if failbit s then (None, s)
      else
        let b = dropWhile isspace (buf s) in
        if b = [] then (None, \<lparr>buf = [], failbit = True\<rparr>)
        else
          let neg = (hd b = CHR ''-'');
              b1 = (if hd b = CHR ''-'' \<or> hd b = CHR ''+'' then tl b else b);
              ds = takeWhile isdigit b1;
              rest = dropWhile isdigit b1;
              v = (if neg then - decimal ds else decimal ds)
          in
            if ds = [] \<or> v < INT_MIN \<or> INT_MAX < v then (None, \<lparr>buf = rest, failbit = True\<rparr>)
            else (Some v, \<lparr>buf = rest, failbit = False\<rparr>))"

text \<open>\<^verbatim>\<open>cin.clear()\<close>, \<^verbatim>\<open>cin.ignore(n, delim)\<close> and \<^verbatim>\<open>cin.ignore()\<close>.\<close>

definition clear :: "istream \<Rightarrow> istream" where
  "clear s = s\<lparr>failbit := False\<rparr>"

definition ignore :: "nat \<Rightarrow> char \<Rightarrow> istream \<Rightarrow> istream" where
  "ignore n delim s =
     (if failbit s then s
      else
        let k = length (takeWhile (\<lambda>c. c \<noteq> delim) (buf s)) in
        s\<lparr>buf := (if k < n then drop (Suc k) (buf s) else drop n (buf s))\<rparr>)"

definition ignore1 :: "istream \<Rightarrow> istream" where
  "ignore1 s = (if failbit s then s else s\<lparr>buf := drop 1 (buf s)\<rparr>)"

text \<open>
  \<^verbatim>\<open>std::getline(std::cin, str)\<close>: on a failed stream \<open>str\<close> keeps its value; otherwise
  it becomes the characters up to the next newline, which is consumed. Reaching the
  end of the input with no character extracted sets \<^verbatim>\<open>failbit\<close>.
\<close>

definition getline :: "string \<Rightarrow> istream \<Rightarrow> string \<times> istream" where
  "getline str s =
     (if failbit s then (str, s)
      else
        let line = takeWhile (\<lambda>c. c \<noteq> CHR 0x0A) (buf s);
            rest = drop (length line) (buf s)
        in
          if rest = [] then (line, \<lparr>buf = [], failbit = (line = [])\<rparr>)
          else (line, \<lparr>buf = tl rest, failbit = False\<rparr>))"

text \<open>\<^verbatim>\<open>std::to_string\<close> of an \<^verbatim>\<open>int\<close>.\<close>

fun digits :: "nat \<Rightarrow> string" where
  "digits n =
     (if n < 10 then [''0123456789'' ! n]
      else digits (n div 10) @ [''0123456789'' ! (n mod 10)])"

declare digits.simps [simp del]

definition to_string :: "int \<Rightarrow> string" where
  "to_string i = (if i < 0 then CHR ''-'' # digits (nat (- i)) else digits (nat i))"

text \<open>
  Every text is bound as \<^verbatim>\<open>sqlite3_bind_text(stmt, i, s.c_str(), -1, SQLITE_STATIC)\<close>: with
  the length \<^verbatim>\<open>-1\<close> the engine reads the text up to its first NUL byte. A line read by
  \<^verbatim>\<open>std::getline\<close> may hold NUL bytes; what is stored of it is \<open>c_str\<close> of the line.
\<close>

definition c_str :: "string \<Rightarrow> string" where
  "c_str s = takeWhile (\<lambda>c. c \<noteq> CHR 0x00) s"

section \<open>The process state\<close>

text \<open>
  \<open>Lock\<close> and \<open>Unlock\<close> are the construction and destruction of a
  \<^verbatim>\<open>std::lock_guard<std::mutex>\<close> on the global \<^verbatim>\<open>db_mutex\<close> (worker/worker.cpp, line 9);
  \<open>Read\<close> is a prepared \<^verbatim>\<open>SELECT\<close>, \<open>Write\<close> a prepared \<^verbatim>\<open>INSERT\<close>, \<^verbatim>\<open>UPDATE\<close> or
  \<^verbatim>\<open>DELETE\<close>.
\<close>

datatype event = Lock | Unlock | Read | Write

text \<open>
  \<open>db\<close> is the connection \<^verbatim>\<open>sqlite3* db\<close>: \<open>None\<close> is the \<^verbatim>\<open>nullptr\<close> that
  \<^verbatim>\<open>DatabaseManager\<close> keeps when \<^verbatim>\<open>sqlite3_open\<close> fails, on which every
  \<^verbatim>\<open>sqlite3_prepare_v2\<close> fails. \<open>step_done\<close> tells whether \<^verbatim>\<open>sqlite3_step\<close> of a
  writing statement returns \<^verbatim>\<open>SQLITE_DONE\<close>; when the engine reports an error instead,
  the statement changes nothing. \<open>cout\<close> collects the result and diagnostic lines
  written to \<^verbatim>\<open>std::cout\<close> and \<^verbatim>\<open>std::cerr\<close> (prompts, banners and the listings of rows
  are left out). \<open>events\<close> is the order in which the mutex and the store are used.

  A function of the program maps a state to \<open>Some\<close> state when it returns to the menu
  and to \<open>None\<close> when it never returns: a prompt loop at the end of the input repeats
  forever, and an exception that leaves the thread terminates the process.
\<close>

record world =
  db :: "database option"
  step_done :: bool
  cin :: istream
  cout :: "string list"
  events :: "event list"

definition print :: "string \<Rightarrow> world \<Rightarrow> world" where
  "print line w = w\<lparr>cout := cout w @ [line]\<rparr>"

definition emit :: "event list \<Rightarrow> world \<Rightarrow> world" where
  "emit es w = w\<lparr>events := events w @ es\<rparr>"

definition read_line :: "world \<Rightarrow> string \<times> world" where
  "read_line w = (case getline [] (cin w) of (str, s) \<Rightarrow> (str, w\<lparr>cin := s\<rparr>))"

text \<open>
  The prompt loop for an id, as \<^verbatim>\<open>assignTask\<close>, \<^verbatim>\<open>reportViolation\<close>, \<^verbatim>\<open>deleteRule\<close>,
  \<^verbatim>\<open>deleteTask\<close>, \<^verbatim>\<open>reportTaskWork\<close> and \<^verbatim>\<open>GiveRuleFeedback\<close> each write it:

  \<^verbatim>\<open>while (true) { std::cin >> n;
       if (std::cin.fail() || rejected(n)) { std::cin.clear(); std::cin.ignore(10000, '\n'); print(msg); }
       else { std::cin.ignore(); break; } }\<close>

  (the successful \<^verbatim>\<open>ignore()\<close> stands inside the loop or right after it). The loops
  differ in \<open>rejected\<close> and in the message. At the end of the input the extraction
  fails on every round.
\<close>

function prompt_int :: "(int \<Rightarrow> bool) \<Rightarrow> string \<Rightarrow> world \<Rightarrow> (int \<times> world) option" where
  "prompt_int rejected msg w =
     (if buf (cin w) = [] then None
      else
        case extract_int (cin w) of
          (None, s) \<Rightarrow>
            prompt_int rejected msg (print msg (w\<lparr>cin := ignore 10000 (CHR 0x0A) (clear s)\<rparr>))
        | (Some n, s) \<Rightarrow>
            if rejected n
            then prompt_int rejected msg (print msg (w\<lparr>cin := ignore 10000 (CHR 0x0A) (clear s)\<rparr>))
            else Some (n, w\<lparr>cin := ignore1 s\<rparr>))"
  by pat_completeness auto
termination
proof -
  have shorter: "length (dropWhile P xs) \<le> length xs" for P and xs :: string
    by (induction xs) auto
  have after_sign: "length (dropWhile P (tl (dropWhile Q xs))) \<le> length xs"
    for P Q and xs :: string
    using shorter [of P "tl (dropWhile Q xs)"] shorter [of Q xs] by simp
  have no_sign: "length (dropWhile P (dropWhile Q xs)) \<le> length xs" for P Q and xs :: string
    using shorter [of P "dropWhile Q xs"] shorter [of Q xs] by simp
  have extracted: "length (buf (snd (extract_int s))) \<le> length (buf s)" for s
    by (simp add: extract_int_def Let_def after_sign no_sign)
  have ignored: "length (buf (ignore n delim s)) < length (buf s)"
    if "buf s \<noteq> []" "\<not> failbit s" "0 < n" for n delim s
    using that by (cases "buf s") (auto simp: ignore_def Let_def)
  have decreases: "length (buf (ignore 10000 delim (clear (snd (extract_int s))))) < length (buf s)"
    if ne: "buf s \<noteq> []" for delim s
  proof (cases "buf (snd (extract_int s)) = []")
    case True
    with ne show ?thesis
      by (simp add: ignore_def clear_def Let_def)
  next
    case False
    then have "length (buf (ignore 10000 delim (clear (snd (extract_int s)))))
        < length (buf (clear (snd (extract_int s))))"
      by (intro ignored) (simp_all add: clear_def)
    also have "\<dots> \<le> length (buf s)"
      using extracted [of s] by (simp add: clear_def)
    finally show ?thesis .
  qed
  show ?thesis
    apply (relation "measure (\<lambda>(rejected, msg, w). length (buf (cin w)))")
      apply simp
     apply (simp add: print_def)
     apply (metis decreases snd_conv)
    apply (simp add: print_def)
    apply (metis decreases snd_conv)
    done
qed

declare prompt_int.simps [simp del]

section \<open>Worker (worker/worker.cpp)\<close>

subsection \<open>reportTaskWork\<close>

text \<open>
  Lines 71 to 95: under the mutex, the ids of the worker's tasks that are not completed
  (\<^verbatim>\<open>SELECT id, task_description, status FROM tasks WHERE worker_id = ? AND status != 'completed';\<close>).
  When the statement cannot be prepared the function returns at once (\<open>Inl\<close>).
\<close>

definition reportTaskWork_fetch :: "int \<Rightarrow> world \<Rightarrow> world + int list \<times> world" where
  "reportTaskWork_fetch userId w =
     (case db w of
        Some d \<Rightarrow>
          Inr (map task_id (filter (\<lambda>t. worker_id t = userId \<and> status t \<noteq> ''completed'') (tasks d)),
               emit [Lock, Read, Unlock] w)
      | None \<Rightarrow> Inl (emit [Lock, Unlock] (print ''Failed to fetch assigned tasks.'' w)))"

text \<open>
  Lines 138 to 158, the commit inside the thread: under the mutex,
  \<^verbatim>\<open>UPDATE tasks SET worker_report = ?, worker_media = ?, status = 'completed' WHERE id = ? AND worker_id = ?;\<close>.
  The lock guard lives until the lambda returns.
\<close>

definition reportTask_update :: "string \<Rightarrow> string \<Rightarrow> int \<Rightarrow> int \<Rightarrow> world \<Rightarrow> world" where
  "reportTask_update reportDesc savedFilePath taskId userId w =
     (case db w of
        Some d \<Rightarrow>
          if step_done w
          then emit [Lock, Write, Unlock]
                 (print ''Task report submitted successfully.''
                    (w\<lparr>db := Some (d\<lparr>tasks :=
                         map (\<lambda>t. if task_id t = taskId \<and> worker_id t = userId
                                   then t\<lparr>worker_report := Some (c_str reportDesc),
                                          worker_media := Some (c_str savedFilePath),
                                          status := ''completed''\<rparr>
                                   else t)
                             (tasks d)\<rparr>)\<rparr>))
          else emit [Lock, Write, Unlock] (print ''Failed to submit report.'' w)
      | None \<Rightarrow> emit [Lock, Unlock] (print ''Failed to prepare statement.'' w))"

text \<open>
  What the file system does with \<^verbatim>\<open>create_directories("./uploads")\<close> and
  \<^verbatim>\<open>copy(mediaPath, savedFilePath, overwrite_existing)\<close> is given from outside: the
  copy returns, or it throws an exception with the text \<^verbatim>\<open>e.what()\<close>, or creating the
  directory throws, which nothing catches, so the process terminates.
\<close>

datatype fs_result = Copied | Copy_throws string | Mkdir_throws

text \<open>Lines 120 to 163: the lambda \<^verbatim>\<open>reportTask\<close> that the thread runs.\<close>

definition reportTask ::
  "(string \<Rightarrow> string \<Rightarrow> fs_result) \<Rightarrow> int \<Rightarrow> int \<Rightarrow> string \<Rightarrow> string \<Rightarrow> world \<Rightarrow> world option" where
  "reportTask fs taskId userId reportDesc mediaPath w =
     (let savedFilePath = ''./uploads/task_'' @ to_string taskId @ ''_user_'' @ to_string userId in
      case fs mediaPath savedFilePath of
        Mkdir_throws \<Rightarrow> None
      | Copy_throws what \<Rightarrow> Some (print (''Failed to save media: '' @ what) w)
      | Copied \<Rightarrow> Some (reportTask_update reportDesc savedFilePath taskId userId w))"

text \<open>
  Lines 66 to 118: the listing, the choice of a task id among the listed ones, and the
  two lines of the report. The result is what the lambda captures.
\<close>

definition reportTaskWork_input ::
  "int \<Rightarrow> world \<Rightarrow> (world + (int \<times> string \<times> string) \<times> world) option" where
  "reportTaskWork_input userId w =
     (case reportTaskWork_fetch userId w of
        Inl w' \<Rightarrow> Some (Inl w')
      | Inr (validTaskIds, w1) \<Rightarrow>
          (case prompt_int (\<lambda>taskId. taskId < 0 \<or> taskId \<notin> set validTaskIds)
                  ''Invalid or unassigned task ID. Try again.'' w1 of
             None \<Rightarrow> None
           | Some (taskId, w2) \<Rightarrow>
               (case read_line w2 of
                  (reportDesc, w3) \<Rightarrow>
                    (case read_line w3 of
                       (mediaPath, w4) \<Rightarrow> Some (Inr ((taskId, reportDesc, mediaPath), w4))))))"

text \<open>The whole function: the thread is started and joined at once.\<close>

definition reportTaskWork :: "(string \<Rightarrow> string \<Rightarrow> fs_result) \<Rightarrow> int \<Rightarrow> world \<Rightarrow> world option" where
  "reportTaskWork fs userId w =
     (case reportTaskWork_input userId w of
        None \<Rightarrow> None
      | Some (Inl w') \<Rightarrow> Some w'
      | Some (Inr ((taskId, reportDesc, mediaPath), w4)) \<Rightarrow>
          reportTask fs taskId userId reportDesc mediaPath w4)"

text \<open>
  The mutex is released after the listing (line 95), and the thread sleeps 180 seconds
  before it commits. Another session of the program on the same \<^verbatim>\<open>ehs.db\<close> can write to
  the store in between; \<open>others\<close> is what such sessions have made of the store when the
  commit runs. Nothing of the function reads the store between the listing and the
  commit, so one point of change covers every interleaving. \<open>reportTaskWork\<close> above is
  the function run alone.
\<close>

definition reportTaskWork_shared ::
  "(string \<Rightarrow> string \<Rightarrow> fs_result) \<Rightarrow> (database \<Rightarrow> database) \<Rightarrow> int \<Rightarrow> world \<Rightarrow> world option" where
  "reportTaskWork_shared fs others userId w =
     (case reportTaskWork_input userId w of
        None \<Rightarrow> None
      | Some (Inl w') \<Rightarrow> Some w'
      | Some (Inr ((taskId, reportDesc, mediaPath), w4)) \<Rightarrow>
          reportTask fs taskId userId reportDesc mediaPath (w4\<lparr>db := map_option others (db w4)\<rparr>))"

subsection \<open>GiveRuleFeedback\<close>

text \<open>
  Lines 225 to 239: \<^verbatim>\<open>UPDATE rules SET feedback = ? WHERE id = ?\<close>. No mutex is taken.
\<close>

definition GiveRuleFeedback_update :: "int \<Rightarrow> string \<Rightarrow> world \<Rightarrow> world" where
  "GiveRuleFeedback_update ruleId fb w =
     (case db w of
        Some d \<Rightarrow>
          if step_done w
          then emit [Write]
                 (print ''Feedback submitted successfully.''
                    (w\<lparr>db := Some (d\<lparr>rules :=
                         map (\<lambda>r. if rule_id r = ruleId then r\<lparr>feedback := Some (c_str fb)\<rparr>
                                   else r)
                             (rules d)\<rparr>)\<rparr>))
          else emit [Write] (print ''Failed to submit feedback.'' w)
      | None \<Rightarrow> print ''Failed to prepare statement.'' w)"

text \<open>Lines 185 to 240.\<close>

definition GiveRuleFeedback :: "world \<Rightarrow> world option" where
  "GiveRuleFeedback w =
     (case db w of
        None \<Rightarrow> Some (print ''Failed to load rules.'' w)
      | Some d \<Rightarrow>
          (case prompt_int (\<lambda>ruleId. ruleId < 0) ''Invalid Rule ID. Try again.'' (emit [Read] w) of
             None \<Rightarrow> None
           | Some (ruleId, w1) \<Rightarrow>
               (case read_line w1 of
                  (fb, w2) \<Rightarrow> Some (GiveRuleFeedback_update ruleId fb w2))))"

section \<open>Manager (manager/manager.cpp)\<close>

subsection \<open>assignTask\<close>

text \<open>
  \<^verbatim>\<open>INSERT INTO tasks (worker_id, worker_username, task_description, status) VALUES (?, ?, ?, 'pending');\<close>
  AUTOINCREMENT gives the new row an id one above every id the table has held.
\<close>

definition insert_task :: "int \<Rightarrow> string \<Rightarrow> string \<Rightarrow> database \<Rightarrow> database" where
  "insert_task workerId uname task d =
     (let i = fold max (map task_id (tasks d)) (tasks_seq d) + 1 in
      d\<lparr>tasks := tasks d @
            [\<lparr>task_id = i, worker_id = workerId, worker_username = uname,
              task_description = task, status = ''pending'',
              violation_comment = None, violation_timestamp = None,
              worker_report = None, worker_media = None\<rparr>],
        tasks_seq := i\<rparr>)"

text \<open>
  Lines 70 to 97: \<^verbatim>\<open>SELECT username FROM users WHERE id = ?;\<close>, then the insert. A
  statement that cannot be prepared is skipped without a message.
\<close>

definition assignTask_insert :: "int \<Rightarrow> string \<Rightarrow> world \<Rightarrow> world" where
  "assignTask_insert workerId task w =
     (case db w of
        None \<Rightarrow> w
      | Some d \<Rightarrow>
          (case find (\<lambda>u. user_id u = workerId) (users d) of
             None \<Rightarrow> emit [Read] (print ''Worker not found.'' w)
           | Some u \<Rightarrow>
               if step_done w
               then emit [Read, Write]
                      (print ''Task assigned successfully.''
                         (w\<lparr>db := Some (insert_task workerId (c_str (username u)) (c_str task) d)\<rparr>))
               else emit [Read, Write] (print ''Failed to assign task.'' w)))"

text \<open>
  Lines 31 to 98. The list of workers (\<^verbatim>\<open>SELECT id, username FROM users WHERE role = 'worker';\<close>)
  is only shown.
\<close>

definition assignTask :: "world \<Rightarrow> world option" where
  "assignTask w =
     (case prompt_int (\<lambda>workerId. workerId < 0) ''Invalid input. Please try again.''
             (case db w of None \<Rightarrow> w | Some d \<Rightarrow> emit [Read] w) of
        None \<Rightarrow> None
      | Some (workerId, w1) \<Rightarrow>
          (case read_line w1 of
             (task, w2) \<Rightarrow> Some (assignTask_insert workerId task w2)))"

subsection \<open>reportViolation\<close>

text \<open>Lines 146 to 153: the loop over the characters of the status.\<close>

fun isNumeric :: "string \<Rightarrow> bool" where
  "isNumeric [] = True"
| "isNumeric (c # cs) = (if \<not> isdigit c then False else isNumeric cs)"

text \<open>
  Lines 142 to 160: the status is asked for until it is neither empty nor made of
  digits only. There is no \<^verbatim>\<open>clear()\<close> in this loop: once the stream has failed or the
  input has ended, every further round leaves an empty or unchanged status, so a
  rejected status is then rejected forever.
\<close>

function reportViolation_status :: "string \<Rightarrow> world \<Rightarrow> (string \<times> world) option" where
  "reportViolation_status status0 w =
     (case getline status0 (cin w) of
        (status1, s) \<Rightarrow>
          if status1 = [] \<or> isNumeric status1
          then
            if failbit s \<or> buf s = [] then None
            else reportViolation_status status1
                   (print ''Invalid input. Task status must be a non-numeric string.'' (w\<lparr>cin := s\<rparr>))
          else Some (status1, w\<lparr>cin := s\<rparr>))"
  by pat_completeness auto
termination
proof -
  have consumed: "length (buf s) < length (buf s0)"
    if "getline str s0 = (l, s)" "\<not> failbit s" "buf s \<noteq> []" for str s0 l s
  proof -
    have t: "length (tl (drop n xs)) < length xs" if "xs \<noteq> []" for n and xs :: string
      using that by (cases xs) (auto simp: drop_Cons')
    from that have "\<not> failbit s0"
      by (auto simp: getline_def)
    moreover from that have "buf s0 \<noteq> []"
      by (auto simp: getline_def Let_def split: if_splits)
    ultimately show ?thesis
      using that t [of "buf s0"] by (auto simp: getline_def Let_def split: if_splits)
  qed
  show ?thesis
    apply (relation "measure (\<lambda>(status0, w). length (buf (cin w)))")
     apply simp
    apply (simp add: print_def)
    apply (metis consumed)
    done
qed

declare reportViolation_status.simps [simp del]

text \<open>
  Lines 162 to 183: the time stamp is \<^verbatim>\<open>ctime\<close>'s text without its final newline;
  \<^verbatim>\<open>UPDATE tasks SET status = ?, violation_comment = ?, violation_timestamp = ? WHERE id = ?;\<close>.
  The variable \<^verbatim>\<open>comment\<close> (line 111) is declared and bound, and nothing assigns it.
\<close>

definition reportViolation_update :: "string \<Rightarrow> int \<Rightarrow> string \<Rightarrow> world \<Rightarrow> world" where
  "reportViolation_update ctime_now taskId status1 w =
     (let comment = [];
          timestamp1 = (if ctime_now \<noteq> [] \<and> last ctime_now = CHR 0x0A
                        then butlast ctime_now else ctime_now)
      in
        case db w of
          None \<Rightarrow> w
        | Some d \<Rightarrow>
            if step_done w
            then emit [Write]
                   (print ''Task updated with violation info.''
                      (w\<lparr>db := Some (d\<lparr>tasks :=
                           map (\<lambda>t. if task_id t = taskId
                                     then t\<lparr>status := c_str status1,
                                            violation_comment := Some (c_str comment),
                                            violation_timestamp := Some (c_str timestamp1)\<rparr>
                                     else t)
                               (tasks d)\<rparr>)\<rparr>))
            else emit [Write] (print ''Failed to update task.'' w))"

text \<open>
  Lines 108 to 184. The pending tasks
  (\<^verbatim>\<open>SELECT id, worker_username, task_description FROM tasks WHERE status = 'pending';\<close>)
  are only shown: the id that is typed is not compared with them.
\<close>

definition reportViolation :: "string \<Rightarrow> world \<Rightarrow> world option" where
  "reportViolation ctime_now w =
     (case prompt_int (\<lambda>taskId. taskId < 0) ''Invalid input. Task ID must be a non-negative number.''
             (case db w of None \<Rightarrow> w | Some d \<Rightarrow> emit [Read] w) of
        None \<Rightarrow> None
      | Some (taskId, w1) \<Rightarrow>
          (case reportViolation_status [] w1 of
             None \<Rightarrow> None
           | Some (status1, w2) \<Rightarrow> Some (reportViolation_update ctime_now taskId status1 w2)))"

subsection \<open>addRule\<close>

text \<open>Lines 196 to 205: the rule is asked for until it is not empty.\<close>

function addRule_rule :: "string \<Rightarrow> world \<Rightarrow> (string \<times> world) option" where
  "addRule_rule rule0 w =
     (case getline rule0 (cin w) of
        (rule1, s) \<Rightarrow>
          if rule1 = []
          then
            if failbit s \<or> buf s = [] then None
            else addRule_rule rule1
                   (print ''Rule cannot be empty. Please enter a valid safety rule.'' (w\<lparr>cin := s\<rparr>))
          else Some (rule1, w\<lparr>cin := s\<rparr>))"
  by pat_completeness auto
termination
proof -
  have consumed: "length (buf s) < length (buf s0)"
    if "getline str s0 = (l, s)" "\<not> failbit s" "buf s \<noteq> []" for str s0 l s
  proof -
    have t: "length (tl (drop n xs)) < length xs" if "xs \<noteq> []" for n and xs :: string
      using that by (cases xs) (auto simp: drop_Cons')
    from that have "\<not> failbit s0"
      by (auto simp: getline_def)
    moreover from that have "buf s0 \<noteq> []"
      by (auto simp: getline_def Let_def split: if_splits)
    ultimately show ?thesis
      using that t [of "buf s0"] by (auto simp: getline_def Let_def split: if_splits)
  qed
  show ?thesis
    apply (relation "measure (\<lambda>(rule0, w). length (buf (cin w)))")
     apply simp
    apply (simp add: print_def)
    apply (metis consumed)
    done
qed

declare addRule_rule.simps [simp del]

text \<open>\<^verbatim>\<open>INSERT INTO rules (rule_text, timestamp) VALUES (?, ?);\<close>\<close>

definition insert_rule :: "string \<Rightarrow> string \<Rightarrow> database \<Rightarrow> database" where
  "insert_rule rule1 timestamp1 d =
     (let i = fold max (map rule_id (rules d)) (rules_seq d) + 1 in
      d\<lparr>rules := rules d @
            [\<lparr>rule_id = i, rule_text = rule1, feedback = None, timestamp = timestamp1\<rparr>],
        rules_seq := i\<rparr>)"

text \<open>
  Lines 194 to 233; \<open>strftime_now\<close> is the local time as \<^verbatim>\<open>%Y-%m-%d %H:%M:%S\<close>. The
  diagnostics end with \<^verbatim>\<open>sqlite3_errmsg\<close>'s text, which is left out.
\<close>

definition addRule :: "string \<Rightarrow> world \<Rightarrow> world option" where
  "addRule strftime_now w =
     (case addRule_rule [] w of
        None \<Rightarrow> None
      | Some (rule1, w1) \<Rightarrow>
          (case db w1 of
             None \<Rightarrow> Some (print ''SQL error: '' w1)
           | Some d \<Rightarrow>
               if step_done w1
               then Some (emit [Write]
                            (print ''New rule added successfully.''
                               (w1\<lparr>db := Some (insert_rule (c_str rule1) (c_str strftime_now) d)\<rparr>)))
               else Some (emit [Write] (print ''Execution failed: '' w1))))"

subsection \<open>deleteRule and deleteTask\<close>

text \<open>Lines 276 to 293: \<^verbatim>\<open>DELETE FROM rules WHERE id = ?;\<close>\<close>

definition deleteRule_delete :: "int \<Rightarrow> world \<Rightarrow> world" where
  "deleteRule_delete ruleId w =
     (case db w of
        None \<Rightarrow> print ''Couldn't prepare the delete statement.'' w
      | Some d \<Rightarrow>
          if step_done w
          then emit [Write]
                 (print ''Rule deleted successfully.''
                    (w\<lparr>db := Some (d\<lparr>rules := filter (\<lambda>r. rule_id r \<noteq> ruleId) (rules d)\<rparr>)\<rparr>))
          else emit [Write] (print ''Failed to delete rule.'' w))"

text \<open>Lines 243 to 294.\<close>

definition deleteRule :: "world \<Rightarrow> world option" where
  "deleteRule w =
     (case db w of
        None \<Rightarrow> Some (print ''Failed to retrieve rules: '' w)
      | Some d \<Rightarrow>
          (case prompt_int (\<lambda>ruleId. ruleId < 0)
                  ''Invalid input. Rule ID must be a non-negative number.'' (emit [Read] w) of
             None \<Rightarrow> None
           | Some (ruleId, w1) \<Rightarrow> Some (deleteRule_delete ruleId w1)))"

text \<open>Lines 338 to 355: \<^verbatim>\<open>DELETE FROM tasks WHERE id = ?;\<close>\<close>

definition deleteTask_delete :: "int \<Rightarrow> world \<Rightarrow> world" where
  "deleteTask_delete taskId w =
     (case db w of
        None \<Rightarrow> print ''Couldn't prepare the delete statement.'' w
      | Some d \<Rightarrow>
          if step_done w
          then emit [Write]
                 (print ''Task deleted successfully.''
                    (w\<lparr>db := Some (d\<lparr>tasks := filter (\<lambda>t. task_id t \<noteq> taskId) (tasks d)\<rparr>)\<rparr>))
          else emit [Write] (print ''Failed to delete task.'' w))"

text \<open>Lines 304 to 356.\<close>

definition deleteTask :: "world \<Rightarrow> world option" where
  "deleteTask w =
     (case db w of
        None \<Rightarrow> Some (print ''Failed to retrieve tasks: '' w)
      | Some d \<Rightarrow>
          (case prompt_int (\<lambda>taskId. taskId < 0)
                  ''Invalid input. Task ID must be a non-negative number.'' (emit [Read] w) of
             None \<Rightarrow> None
           | Some (taskId, w1) \<Rightarrow> Some (deleteTask_delete taskId w1)))"

section \<open>User (user/user.cpp)\<close>

text \<open>
  \<^verbatim>\<open>viewTaskDetails\<close>, lines 155 to 216: the rows that the function steps through and
  shows, all tasks for a manager and the tasks \<^verbatim>\<open>WHERE worker_id = ?\<close> for a worker.
  \<open>None\<close>: the statement cannot be prepared and nothing is shown.
\<close>

definition viewTaskDetails :: "world \<Rightarrow> int \<Rightarrow> bool \<Rightarrow> task_row list option" where
  "viewTaskDetails w userId isManager =
     (case db w of
        None \<Rightarrow> None
      | Some d \<Rightarrow>
          Some (if isManager then tasks d else filter (\<lambda>t. worker_id t = userId) (tasks d)))"

section \<open>Holding the mutex while writing\<close>

text \<open>
  \<open>writes_locked held es\<close>: along the events \<open>es\<close>, started with the mutex held or
  not, every \<open>Write\<close> happens while \<^verbatim>\<open>db_mutex\<close> is held.
\<close>

fun writes_locked :: "bool \<Rightarrow> event list \<Rightarrow> bool" where
  "writes_locked held [] = True"
| "writes_locked held (Lock # es) = writes_locked True es"
| "writes_locked held (Unlock # es) = writes_locked False es"
| "writes_locked held (Read # es) = writes_locked held es"
| "writes_locked held (Write # es) = (held \<and> writes_locked held es)"

text \<open>
  \<open>accesses_locked held es\<close>: every statement, \<open>Read\<close> or \<open>Write\<close>, happens while
  \<^verbatim>\<open>db_mutex\<close> is held.
\<close>

fun accesses_locked :: "bool \<Rightarrow> event list \<Rightarrow> bool" where
  "accesses_locked held [] = True"
| "accesses_locked held (Lock # es) = accesses_locked True es"
| "accesses_locked held (Unlock # es) = accesses_locked False es"
| "accesses_locked held (Read # es) = (held \<and> accesses_locked held es)"
| "accesses_locked held (Write # es) = (held \<and> accesses_locked held es)"

section \<open>A small store for the examples\<close>

text \<open>
  A manager with id 1, a worker with id 5, one pending task of the worker and one rule
  without feedback. The example state has a working connection, the given console
  input and nothing printed.
\<close>

definition example_db :: database where
  "example_db =
     \<lparr>users = [\<lparr>user_id = 1, username = ''boss'', password = ''8c6976e5'', role = ''manager''\<rparr>,
               \<lparr>user_id = 5, username = ''alice'', password = ''5e884898'', role = ''worker''\<rparr>],
      tasks = [\<lparr>task_id = 1, worker_id = 5, worker_username = ''alice'',
                task_description = ''Wear PPE'', status = ''pending'',
                violation_comment = None, violation_timestamp = None,
                worker_report = None, worker_media = None\<rparr>],
      rules = [\<lparr>rule_id = 1, rule_text = ''Wear gloves'', feedback = None,
                timestamp = ''2026-10-30 01:04:00''\<rparr>],
      tasks_seq = 1, rules_seq = 1\<rparr>"

definition example_world :: "string \<Rightarrow> world" where
  "example_world input =
     \<lparr>db = Some example_db, step_done = True, cin = \<lparr>buf = input, failbit = False\<rparr>,
      cout = [], events = []\<rparr>"

text \<open>
  A file system on which every copy returns, and another session in which the manager
  deletes task 1 (\<^verbatim>\<open>DELETE FROM tasks WHERE id = ?;\<close>) while the worker's thread sleeps.
\<close>

definition example_copied :: "string \<Rightarrow> string \<Rightarrow> fs_result" where
  "example_copied src dst = Copied"

definition example_manager_deletes :: "database \<Rightarrow> database" where
  "example_manager_deletes d = d\<lparr>tasks := filter (\<lambda>t. task_id t \<noteq> 1) (tasks d)\<rparr>"

section \<open>What the prompt loops leave untouched\<close>

text \<open>
  A prompt loop only reads the console and writes messages; the id it returns has
  passed the loop's test, and a status or a rule it returns is one the loop accepts.
\<close>

lemma prompt_int_Some:
  "prompt_int rejected msg w = Some (n, w') \<Longrightarrow>
   \<not> rejected n \<and> db w' = db w \<and> step_done w' = step_done w \<and> events w' = events w"
proof (induction rejected msg w rule: prompt_int.induct)
  case (1 rejected msg w)
  obtain r s where e: "extract_int (cin w) = (r, s)"
    by (cases "extract_int (cin w)")
  let ?again = "print msg (w\<lparr>cin := ignore 10000 (CHR 0x0A) (clear s)\<rparr>)"
  have frame: "db ?again = db w \<and> step_done ?again = step_done w \<and> events ?again = events w"
    by (simp add: print_def)
  from "1.prems" have ne: "buf (cin w) \<noteq> []"
    by (subst (asm) prompt_int.simps) (simp split: if_splits)
  show ?case
  proof (cases r)
    case None
    with "1.prems" ne e have "prompt_int rejected msg ?again = Some (n, w')"
      by (subst (asm) prompt_int.simps) simp
    from "1.IH"(1) [OF ne e [symmetric] None this] frame show ?thesis
      by simp
  next
    case (Some k)
    show ?thesis
    proof (cases "rejected k")
      case True
      with "1.prems" ne e Some have "prompt_int rejected msg ?again = Some (n, w')"
        by (subst (asm) prompt_int.simps) simp
      from "1.IH"(2) [OF ne e [symmetric] Some True this] frame show ?thesis
        by simp
    next
      case False
      with "1.prems" ne e Some have "n = k" "w' = w\<lparr>cin := ignore1 s\<rparr>"
        by (subst (asm) prompt_int.simps, simp)+
      with False show ?thesis
        by simp
    qed
  qed
qed

lemma reportViolation_status_Some:
  "reportViolation_status status0 w = Some (status1, w') \<Longrightarrow>
   status1 \<noteq> [] \<and> \<not> isNumeric status1 \<and> db w' = db w \<and> step_done w' = step_done w \<and> events w' = events w"
proof (induction status0 w rule: reportViolation_status.induct)
  case (1 status0 w)
  obtain l s where g: "getline status0 (cin w) = (l, s)"
    by (cases "getline status0 (cin w)")
  let ?again = "print ''Invalid input. Task status must be a non-numeric string.'' (w\<lparr>cin := s\<rparr>)"
  have frame: "db ?again = db w \<and> step_done ?again = step_done w \<and> events ?again = events w"
    by (simp add: print_def)
  show ?case
  proof (cases "l = [] \<or> isNumeric l")
    case True
    with "1.prems" g have go: "\<not> (failbit s \<or> buf s = [])"
      and rec: "reportViolation_status l ?again = Some (status1, w')"
      by (subst (asm) reportViolation_status.simps, simp split: if_splits)+
    from "1.IH" [OF g [symmetric] True go rec] frame show ?thesis
      by simp
  next
    case False
    with "1.prems" g have "status1 = l" "w' = w\<lparr>cin := s\<rparr>"
      by (subst (asm) reportViolation_status.simps, simp)+
    with False show ?thesis
      by simp
  qed
qed

lemma addRule_rule_Some:
  "addRule_rule rule0 w = Some (rule1, w') \<Longrightarrow>
   rule1 \<noteq> [] \<and> db w' = db w \<and> step_done w' = step_done w \<and> events w' = events w"
proof (induction rule0 w rule: addRule_rule.induct)
  case (1 rule0 w)
  obtain l s where g: "getline rule0 (cin w) = (l, s)"
    by (cases "getline rule0 (cin w)")
  let ?again = "print ''Rule cannot be empty. Please enter a valid safety rule.'' (w\<lparr>cin := s\<rparr>)"
  have frame: "db ?again = db w \<and> step_done ?again = step_done w \<and> events ?again = events w"
    by (simp add: print_def)
  show ?case
  proof (cases "l = []")
    case True
    with "1.prems" g have go: "\<not> (failbit s \<or> buf s = [])"
      and rec: "addRule_rule l ?again = Some (rule1, w')"
      by (subst (asm) addRule_rule.simps, simp split: if_splits)+
    from "1.IH" [OF g [symmetric] True go rec] frame show ?thesis
      by simp
  next
    case False
    with "1.prems" g have "rule1 = l" "w' = w\<lparr>cin := s\<rparr>"
      by (subst (asm) addRule_rule.simps, simp)+
    with False show ?thesis
      by simp
  qed
qed

lemma read_line_frame:
  "read_line w = (str, w') \<Longrightarrow>
   db w' = db w \<and> step_done w' = step_done w \<and> events w' = events w \<and> cout w' = cout w"
  by (auto simp: read_line_def split: prod.splits)

text \<open>
  When \<^verbatim>\<open>reportTaskWork\<close> reaches the thread, the connection is open, the store is as
  it was, and the chosen id is one of the listed ids.
\<close>

lemma reportTaskWork_input_Inr:
  assumes "reportTaskWork_input userId w = Some (Inr ((taskId, reportDesc, mediaPath), w4))"
  shows "\<exists>d. db w = Some d \<and> db w4 = db w \<and> step_done w4 = step_done w \<and>
           events w4 = events w @ [Lock, Read, Unlock] \<and> 0 \<le> taskId \<and>
           taskId \<in> set (map task_id (filter (\<lambda>t. worker_id t = userId \<and> status t \<noteq> ''completed'') (tasks d)))"
proof -
  from assms obtain d where d: "db w = Some d"
    by (cases "db w") (auto simp: reportTaskWork_input_def reportTaskWork_fetch_def)
  let ?valid = "map task_id (filter (\<lambda>t. worker_id t = userId \<and> status t \<noteq> ''completed'') (tasks d))"
  let ?rej = "\<lambda>taskId. taskId < 0 \<or> taskId \<notin> set ?valid"
  from assms d obtain w2 where p: "prompt_int ?rej ''Invalid or unassigned task ID. Try again.'' (emit [Lock, Read, Unlock] w) = Some (taskId, w2)"
    and r: "snd (read_line (snd (read_line w2))) = w4"
    by (auto simp: reportTaskWork_input_def reportTaskWork_fetch_def split: option.splits prod.splits)
  from prompt_int_Some [OF p] have a: "\<not> ?rej taskId" "db w2 = db w" "step_done w2 = step_done w"
    "events w2 = events w @ [Lock, Read, Unlock]"
    by (simp_all add: emit_def)
  have f: "db (snd (read_line v)) = db v \<and> step_done (snd (read_line v)) = step_done v \<and> events (snd (read_line v)) = events v" for v
    using read_line_frame [of v "fst (read_line v)" "snd (read_line v)"] by simp
  from a r f [of w2] f [of "snd (read_line w2)"] d show ?thesis
    by auto
qed

lemmas eval_defs = example_world_def example_db_def reportTaskWork_def reportTaskWork_input_def reportTaskWork_fetch_def emit_def print_def
     prompt_int.simps extract_int_def isspace_def isdigit_def decimal_def digit_value_def INT_MAX_def INT_MIN_def ignore1_def ignore_def clear_def
     read_line_def getline_def reportTask_def reportTask_update_def to_string_def digits.simps Let_def
     c_str_def reportTaskWork_shared_def example_copied_def example_manager_deletes_def

lemmas eval_more = assignTask_def assignTask_insert_def insert_task_def reportViolation_def
  reportViolation_status.simps reportViolation_update_def addRule_def addRule_rule.simps insert_rule_def
  deleteRule_def deleteRule_delete_def deleteTask_def deleteTask_delete_def GiveRuleFeedback_def
  GiveRuleFeedback_update_def viewTaskDetails_def



section \<open>Reporting a task (worker/worker.cpp, reportTaskWork)\<close>

text \<open>The primary key of \<^verbatim>\<open>tasks\<close>: two rows with the same id are the same row.\<close>

lemma task_id_unique:
  "distinct (map task_id ts) \<Longrightarrow> t \<in> set ts \<Longrightarrow> t' \<in> set ts \<Longrightarrow> task_id t = task_id t' \<Longrightarrow> t = t'"
  by (meson distinct_map inj_onD)


text \<open>What \<open>c_str\<close> keeps: a text without a NUL byte whole, and so the path of the upload.\<close>

lemma c_str_whole: "CHR 0x00 \<notin> set s \<Longrightarrow> c_str s = s"
  by (auto simp: c_str_def takeWhile_eq_all_conv)

lemma digits_no_NUL: "CHR 0x00 \<notin> set (digits n)"
proof (induction n rule: digits.induct)
  case (1 n)
  have digit: "''0123456789'' ! k \<noteq> CHR 0x00" if "k < 10" for k :: nat
  proof -
    from that have "''0123456789'' ! k \<in> set ''0123456789''"
      by (intro nth_mem) simp
    then show ?thesis
      by auto
  qed
  show ?case
  proof (cases "n < 10")
    case True
    with digit [of n] show ?thesis
      by (subst digits.simps) simp
  next
    case False
    with "1.IH" digit [of "n mod 10"] show ?thesis
      by (subst digits.simps) simp
  qed
qed

lemma savedFilePath_whole:
  "c_str (''./uploads/task_'' @ to_string taskId @ ''_user_'' @ to_string userId) =
     ''./uploads/task_'' @ to_string taskId @ ''_user_'' @ to_string userId"
  by (intro c_str_whole) (simp add: to_string_def digits_no_NUL)

text \<open>Run alone, the function is the shared one with no other session writing.\<close>

lemma reportTaskWork_alone: "reportTaskWork fs userId w = reportTaskWork_shared fs (\<lambda>d. d) userId w"
proof -
  have "v\<lparr>db := map_option (\<lambda>d. d) (db v)\<rparr> = v" for v :: world
    by (simp add: option.map_ident)
  then show ?thesis
    by (simp add: reportTaskWork_def reportTaskWork_shared_def split: option.splits sum.splits prod.splits)
qed

text \<open>
  C1, as the claim states it, fails, in two ways. First: the worker chose task 1 from
  the listing, the copy returns and the update steps to completion, but the manager
  deleted task 1 in another session while the thread slept; the update matches no row,
  the success message is printed, and no task 1 is completed. Second: run alone, with a
  report line \<^verbatim>\<open>ab\<close>, NUL, \<^verbatim>\<open>cd\<close>; the report that is stored is \<^verbatim>\<open>ab\<close>.
\<close>

theorem reportTaskWork_success_fails:
  "reportTaskWork_shared example_copied example_manager_deletes 5
     (example_world ''1\<newline>PPE confirmed\<newline>/tmp/img.jpg\<newline>'') =
   Some \<lparr>db = Some (example_db\<lparr>tasks := []\<rparr>),
         step_done = True,
         cin = \<lparr>buf = [], failbit = False\<rparr>,
         cout = [''Task report submitted successfully.''],
         events = [Lock, Read, Unlock, Lock, Write, Unlock]\<rparr> \<and>
   reportTaskWork example_copied 5
     (example_world (''1\<newline>ab'' @ CHR 0x00 # ''cd\<newline>/tmp/img.jpg\<newline>'')) =
   Some \<lparr>db = Some (example_db\<lparr>tasks :=
             [\<lparr>task_id = 1, worker_id = 5, worker_username = ''alice'',
               task_description = ''Wear PPE'', status = ''completed'',
               violation_comment = None, violation_timestamp = None,
               worker_report = Some ''ab'',
               worker_media = Some ''./uploads/task_1_user_5''\<rparr>]\<rparr>),
         step_done = True,
         cin = \<lparr>buf = [], failbit = False\<rparr>,
         cout = [''Task report submitted successfully.''],
         events = [Lock, Read, Unlock, Lock, Write, Unlock]\<rparr>"
  by (simp add: eval_defs)

text \<open>
  C1, amended. A submission that succeeds: the worker \<open>userId\<close> chose the task \<open>taskId\<close>
  and typed the report and the media path, the copy of the media returned, the update
  ran to completion, and in the store as the other sessions left it when the commit
  runs the task \<open>taskId\<close> is still the worker's. Then the function returns with the
  success message, the task \<open>taskId\<close> exists, and every row with that id has status
  \<open>completed\<close>, the typed report up to its first NUL byte (the whole report when it
  holds none), and the media path \<open>./uploads/task_<taskId>_user_<userId>\<close>, which is
  not empty and does not depend on the path that was typed.
\<close>

theorem reportTaskWork_shared_success:
  assumes input: "reportTaskWork_input userId w = Some (Inr ((taskId, reportDesc, mediaPath), w4))"
    and copied: "fs mediaPath (''./uploads/task_'' @ to_string taskId @ ''_user_'' @ to_string userId) = Copied"
    and stepped: "step_done w"
    and store: "db w = Some d"
    and key: "distinct (map task_id (tasks (others d)))"
    and assigned: "\<exists>t\<in>set (tasks (others d)). task_id t = taskId \<and> worker_id t = userId"
  shows "\<exists>w' d'. reportTaskWork_shared fs others userId w = Some w' \<and> db w' = Some d' \<and>
           last (cout w') = ''Task report submitted successfully.'' \<and>
           (\<exists>t\<in>set (tasks d'). task_id t = taskId) \<and>
           (\<forall>t\<in>set (tasks d'). task_id t = taskId \<longrightarrow>
              status t = ''completed'' \<and> worker_report t = Some (c_str reportDesc) \<and>
              (CHR 0x00 \<notin> set reportDesc \<longrightarrow> worker_report t = Some reportDesc) \<and>
              worker_media t = Some (''./uploads/task_'' @ to_string taskId @ ''_user_'' @ to_string userId) \<and>
              worker_media t \<noteq> Some [])"
proof -
  let ?path = "''./uploads/task_'' @ to_string taskId @ ''_user_'' @ to_string userId"
  let ?upd = "\<lambda>t. if task_id t = taskId \<and> worker_id t = userId
                   then t\<lparr>worker_report := Some (c_str reportDesc), worker_media := Some (c_str ?path),
                          status := ''completed''\<rparr>
                   else t"
  let ?d' = "(others d)\<lparr>tasks := map ?upd (tasks (others d))\<rparr>"
  let ?w5 = "w4\<lparr>db := map_option others (db w4)\<rparr>"
  let ?w' = "reportTask_update reportDesc ?path taskId userId ?w5"
  from reportTaskWork_input_Inr [OF input] store
  have w5: "db ?w5 = Some (others d)" "step_done ?w5 = step_done w"
    by auto
  from assigned obtain t0 where t0: "t0 \<in> set (tasks (others d))" "task_id t0 = taskId" "worker_id t0 = userId"
    by auto
  have run: "reportTaskWork_shared fs others userId w = Some ?w'"
    using input copied by (simp add: reportTaskWork_shared_def reportTask_def)
  have committed: "db (reportTask_update reportDesc ?path taskId userId v) =
        Some (e\<lparr>tasks := map ?upd (tasks e)\<rparr>) \<and>
      last (cout (reportTask_update reportDesc ?path taskId userId v)) =
        ''Task report submitted successfully.''"
    if "db v = Some e" "step_done v" for v e
    using that by (simp add: reportTask_update_def emit_def print_def)
  from committed [OF w5(1)] w5(2) stepped
  have post: "db ?w' = Some ?d'" "last (cout ?w') = ''Task report submitted successfully.''"
    by simp_all
  have ex: "\<exists>t\<in>set (tasks ?d'). task_id t = taskId"
    using t0 by (auto intro!: bexI [of _ "?upd t0"])
  have all: "status t = ''completed'' \<and> worker_report t = Some (c_str reportDesc) \<and>
      (CHR 0x00 \<notin> set reportDesc \<longrightarrow> worker_report t = Some reportDesc) \<and>
      worker_media t = Some ?path \<and> worker_media t \<noteq> Some []"
    if "t \<in> set (tasks ?d')" "task_id t = taskId" for t
  proof -
    from that(1) obtain t1 where t1: "t1 \<in> set (tasks (others d))" "t = ?upd t1"
      by auto
    with that(2) have "task_id t1 = taskId"
      by (simp split: if_splits)
    with task_id_unique [OF key t1(1) t0(1)] t0 have "t1 = t0"
      by simp
    with t1 t0 have "t = t0\<lparr>worker_report := Some (c_str reportDesc),
        worker_media := Some (c_str ?path), status := ''completed''\<rparr>"
      by simp
    then have "t = t0\<lparr>worker_report := Some (c_str reportDesc),
        worker_media := Some ?path, status := ''completed''\<rparr>"
      by (simp only: savedFilePath_whole)
    then show ?thesis
      by (simp add: c_str_whole)
  qed
  from run post ex all show ?thesis
    by blast
qed

theorem reportTaskWork_shared_success_witness:
  "\<exists>w' d'. reportTaskWork_shared example_copied (\<lambda>d. d) 5
       (example_world ''1\<newline>PPE confirmed\<newline>/tmp/img.jpg\<newline>'') = Some w' \<and>
     db w' = Some d' \<and>
     tasks d' = [\<lparr>task_id = 1, worker_id = 5, worker_username = ''alice'',
                  task_description = ''Wear PPE'', status = ''completed'',
                  violation_comment = None, violation_timestamp = None,
                  worker_report = Some ''PPE confirmed'',
                  worker_media = Some ''./uploads/task_1_user_5''\<rparr>] \<and>
     (\<exists>t\<in>set (tasks d'). task_id t = 1 \<and> status t = ''completed'' \<and>
        worker_report t = Some ''PPE confirmed'' \<and> worker_media t = Some ''./uploads/task_1_user_5'')"
proof -
  have input: "reportTaskWork_input 5 (example_world ''1\<newline>PPE confirmed\<newline>/tmp/img.jpg\<newline>'') =
      Some (Inr ((1, ''PPE confirmed'', ''/tmp/img.jpg''),
                 (example_world [])\<lparr>events := [Lock, Read, Unlock]\<rparr>))"
    by (simp add: eval_defs)
  have copied: "example_copied ''/tmp/img.jpg'' (''./uploads/task_'' @ to_string 1 @ ''_user_'' @ to_string 5) = Copied"
    by (simp add: example_copied_def)
  have stepped: "step_done (example_world ''1\<newline>PPE confirmed\<newline>/tmp/img.jpg\<newline>'')"
    and store: "db (example_world ''1\<newline>PPE confirmed\<newline>/tmp/img.jpg\<newline>'') = Some example_db"
    and key: "distinct (map task_id (tasks ((\<lambda>d. d) example_db)))"
    and assigned: "\<exists>t\<in>set (tasks ((\<lambda>d. d) example_db)). task_id t = 1 \<and> worker_id t = 5"
    by (simp_all add: example_world_def example_db_def)
  from reportTaskWork_shared_success [where fs = example_copied and others = "\<lambda>d. d"
      and userId = 5 and taskId = 1 and reportDesc = "''PPE confirmed''"
      and mediaPath = "''/tmp/img.jpg''" and d = example_db
      and w = "example_world ''1\<newline>PPE confirmed\<newline>/tmp/img.jpg\<newline>''"
      and ?w4.0 = "(example_world [])\<lparr>events := [Lock, Read, Unlock]\<rparr>",
      OF input copied stepped store key assigned]
  obtain w' d' where r: "reportTaskWork_shared example_copied (\<lambda>d. d) 5
       (example_world ''1\<newline>PPE confirmed\<newline>/tmp/img.jpg\<newline>'') = Some w'" "db w' = Some d'"
     "\<exists>t\<in>set (tasks d'). task_id t = 1"
     "\<forall>t\<in>set (tasks d'). task_id t = 1 \<longrightarrow>
              status t = ''completed'' \<and> worker_report t = Some (c_str ''PPE confirmed'') \<and>
              worker_media t = Some (''./uploads/task_'' @ to_string 1 @ ''_user_'' @ to_string 5)"
    by blast
  have p: "''./uploads/task_'' @ to_string 1 @ ''_user_'' @ to_string 5 = ''./uploads/task_1_user_5''"
    "c_str ''PPE confirmed'' = ''PPE confirmed''"
    by (simp_all add: to_string_def digits.simps c_str_def)
  from r(1,2) have "tasks d' = [\<lparr>task_id = 1, worker_id = 5, worker_username = ''alice'',
                  task_description = ''Wear PPE'', status = ''completed'',
                  violation_comment = None, violation_timestamp = None,
                  worker_report = Some ''PPE confirmed'',
                  worker_media = Some ''./uploads/task_1_user_5''\<rparr>]"
    by (auto simp add: eval_defs)
  with r p show ?thesis
    by (metis (no_types, lifting))
qed

text \<open>
  C2. A submission whose copy of the media throws: the thread prints the failure and
  returns before the update. The store is the one the function started with, so the
  task row is unchanged and neither the report nor the media path is kept; the only
  access to the store was the listing.
\<close>

theorem reportTaskWork_copy_throws:
  assumes input: "reportTaskWork_input userId w = Some (Inr ((taskId, reportDesc, mediaPath), w4))"
    and throws: "fs mediaPath (''./uploads/task_'' @ to_string taskId @ ''_user_'' @ to_string userId) = Copy_throws what"
  shows "reportTask fs taskId userId reportDesc mediaPath w4 =
           Some (print (''Failed to save media: '' @ what) w4) \<and>
         reportTaskWork fs userId w = Some (print (''Failed to save media: '' @ what) w4) \<and>
         db (print (''Failed to save media: '' @ what) w4) = db w \<and>
         events (print (''Failed to save media: '' @ what) w4) = events w @ [Lock, Read, Unlock]"
proof -
  from reportTaskWork_input_Inr [OF input] have "db w4 = db w" "events w4 = events w @ [Lock, Read, Unlock]"
    by auto
  then show ?thesis
    using input throws by (auto simp add: reportTaskWork_def reportTask_def print_def)
qed

theorem reportTaskWork_copy_throws_witness:
  "reportTaskWork (\<lambda>src dst. Copy_throws ''filesystem error: cannot copy'') 5
       (example_world ''1\<newline>PPE confirmed\<newline>/tmp/none.jpg\<newline>'') =
     Some ((example_world [])\<lparr>cout := [''Failed to save media: filesystem error: cannot copy''],
                              events := [Lock, Read, Unlock]\<rparr>) \<and>
   db ((example_world [])\<lparr>cout := [''Failed to save media: filesystem error: cannot copy''],
                              events := [Lock, Read, Unlock]\<rparr>) = Some example_db"
proof -
  have input: "reportTaskWork_input 5 (example_world ''1\<newline>PPE confirmed\<newline>/tmp/none.jpg\<newline>'') =
      Some (Inr ((1, ''PPE confirmed'', ''/tmp/none.jpg''),
                 (example_world [])\<lparr>events := [Lock, Read, Unlock]\<rparr>))"
    by (simp add: eval_defs)
  have throws: "(\<lambda>src dst. Copy_throws ''filesystem error: cannot copy'') ''/tmp/none.jpg''
      (''./uploads/task_'' @ to_string 1 @ ''_user_'' @ to_string 5) = Copy_throws ''filesystem error: cannot copy''"
    by simp
  from reportTaskWork_copy_throws [OF input throws] show ?thesis
    by (simp add: print_def example_world_def)
qed


text \<open>
  C5, as the claim states it, fails: task 1 of the example store belongs to worker 5;
  the commit for worker 7 matches no row, \<^verbatim>\<open>sqlite3_step\<close> returns \<^verbatim>\<open>SQLITE_DONE\<close>, and
  the success message is printed. Nothing signals that the task is not the worker's.
\<close>

theorem reportTask_update_not_assigned_example:
  "map task_id (tasks example_db) = [1] \<and> map worker_id (tasks example_db) = [5] \<and>
   reportTask_update ''PPE confirmed'' ''./uploads/task_1_user_7'' 1 7 (example_world []) =
     (example_world [])\<lparr>cout := [''Task report submitted successfully.''],
                          events := [Lock, Write, Unlock]\<rparr>"
  by (simp add: eval_defs)

text \<open>An update whose condition no row meets leaves the rows as they are.\<close>

lemma map_unchanged: "(\<And>x. x \<in> set xs \<Longrightarrow> \<not> P x) \<Longrightarrow> map (\<lambda>x. if P x then f x else x) xs = xs"
  by (induction xs) auto

text \<open>
  C5, amended. When no row has the id \<open>taskId\<close> and the worker \<open>userId\<close> (the task
  is another worker's, or there is no such task), the commit changes no row of the
  store; and when the statement steps to completion it is the success message that is
  printed, under the mutex, exactly as for a task of the worker.
\<close>

theorem reportTask_update_not_assigned:
  assumes store: "db w = Some d"
    and other: "\<not> (\<exists>t\<in>set (tasks d). task_id t = taskId \<and> worker_id t = userId)"
  shows "db (reportTask_update reportDesc savedFilePath taskId userId w) = db w \<and>
         (step_done w \<longrightarrow>
            reportTask_update reportDesc savedFilePath taskId userId w =
              emit [Lock, Write, Unlock] (print ''Task report submitted successfully.'' w))"
proof -
  have "map (\<lambda>t. if task_id t = taskId \<and> worker_id t = userId
                  then t\<lparr>worker_report := Some (c_str reportDesc),
                         worker_media := Some (c_str savedFilePath), status := ''completed''\<rparr>
                  else t) (tasks d) = tasks d"
    using other by (intro map_unchanged) auto
  with store show ?thesis
    by (simp add: reportTask_update_def emit_def print_def)
qed

theorem reportTask_update_not_assigned_witness:
  "db (reportTask_update ''PPE confirmed'' ''./uploads/task_1_user_7'' 1 7 (example_world [])) =
     Some example_db \<and>
   cout (reportTask_update ''PPE confirmed'' ''./uploads/task_1_user_7'' 1 7 (example_world [])) =
     [''Task report submitted successfully.'']"
proof -
  have store: "db (example_world []) = Some example_db"
    by (simp add: example_world_def)
  have other: "\<not> (\<exists>t\<in>set (tasks example_db). task_id t = 1 \<and> worker_id t = 7)"
    by (simp add: example_db_def)
  have "step_done (example_world [])"
    by (simp add: example_world_def)
  with reportTask_update_not_assigned [OF store other, of "''PPE confirmed''" "''./uploads/task_1_user_7''"]
  show ?thesis
    by (simp add: emit_def print_def example_world_def)
qed

section \<open>Feedback on a rule (worker/worker.cpp, GiveRuleFeedback)\<close>



text \<open>The same through the whole function, run twice on the console input.\<close>

lemma GiveRuleFeedback_twice_example:
  "Option.bind (GiveRuleFeedback (example_world ''1\<newline>unclear\<newline>1\<newline>clear now\<newline>''))
     GiveRuleFeedback =
   Some \<lparr>db = Some (example_db\<lparr>rules := [\<lparr>rule_id = 1, rule_text = ''Wear gloves'',
                                   feedback = Some ''clear now'',
                                   timestamp = ''2026-10-30 01:04:00''\<rparr>]\<rparr>),
         step_done = True,
         cin = \<lparr>buf = [], failbit = False\<rparr>,
         cout = [''Feedback submitted successfully.'', ''Feedback submitted successfully.''],
         events = [Read, Write, Read, Write]\<rparr>"
  by (simp add: eval_defs eval_more)



text \<open>
  Whenever the connection is open and the statement steps to completion, the last line
  \<^verbatim>\<open>GiveRuleFeedback\<close> prints is the success message, whatever id was typed.
\<close>

lemma GiveRuleFeedback_reports_success:
  assumes "GiveRuleFeedback w = Some w'" and "db w = Some d" and "step_done w"
  shows "last (cout w') = ''Feedback submitted successfully.''"
proof -
  from assms(1,2) obtain ruleId w1 where p: "prompt_int (\<lambda>ruleId. ruleId < 0) ''Invalid Rule ID. Try again.'' (emit [Read] w) = Some (ruleId, w1)"
    and w': "w' = GiveRuleFeedback_update ruleId (fst (read_line w1)) (snd (read_line w1))"
    by (auto simp: GiveRuleFeedback_def split: option.splits prod.splits)
  from prompt_int_Some [OF p] read_line_frame [of w1 "fst (read_line w1)" "snd (read_line w1)"] assms(2,3)
  have "db (snd (read_line w1)) = Some d" "step_done (snd (read_line w1))"
    by (simp_all add: emit_def)
  with w' show ?thesis
    by (simp add: GiveRuleFeedback_update_def emit_def print_def)
qed

section \<open>Assigning a task (manager/manager.cpp, assignTask)\<close>

text \<open>
  C6 at the id of a manager. User 1 of the example store has the role \<^verbatim>\<open>manager\<close>. The
  manager types 1 and a description: \<^verbatim>\<open>SELECT username FROM users WHERE id = ?;\<close> finds
  the row, since it does not look at the role, and a pending task with worker id 1 is
  inserted and reported as assigned.
\<close>

theorem assignTask_to_manager:
  "assignTask (example_world ''1\<newline>Wear PPE\<newline>'') =
   Some \<lparr>db = Some (example_db\<lparr>tasks :=
             [\<lparr>task_id = 1, worker_id = 5, worker_username = ''alice'',
               task_description = ''Wear PPE'', status = ''pending'',
               violation_comment = None, violation_timestamp = None,
               worker_report = None, worker_media = None\<rparr>,
              \<lparr>task_id = 2, worker_id = 1, worker_username = ''boss'',
               task_description = ''Wear PPE'', status = ''pending'',
               violation_comment = None, violation_timestamp = None,
               worker_report = None, worker_media = None\<rparr>],
             tasks_seq := 2\<rparr>),
         step_done = True,
         cin = \<lparr>buf = [], failbit = False\<rparr>,
         cout = [''Task assigned successfully.''],
         events = [Read, Read, Write]\<rparr>"
  by (simp add: eval_defs eval_more)

text \<open>
  On a store without tasks, assigning to worker 5 gives the task the id 1, pending.
\<close>

lemma assignTask_first_task:
  "assignTask ((example_world ''5\<newline>Wear PPE\<newline>'')
       \<lparr>db := Some (example_db\<lparr>tasks := [], tasks_seq := 0\<rparr>)\<rparr>) =
   Some \<lparr>db = Some (example_db\<lparr>tasks :=
             [\<lparr>task_id = 1, worker_id = 5, worker_username = ''alice'',
               task_description = ''Wear PPE'', status = ''pending'',
               violation_comment = None, violation_timestamp = None,
               worker_report = None, worker_media = None\<rparr>],
             tasks_seq := 1\<rparr>),
         step_done = True,
         cin = \<lparr>buf = [], failbit = False\<rparr>,
         cout = [''Task assigned successfully.''],
         events = [Read, Read, Write]\<rparr>"
  by (simp add: eval_defs eval_more)

text \<open>
  What \<^verbatim>\<open>assignTask\<close> does hold to: an id that no user has inserts nothing and prints
  \<^verbatim>\<open>Worker not found.\<close>; an id that a user has inserts exactly one row, pending, with
  that worker id, the user's name, the description up to its first NUL byte, and a
  fresh id.
\<close>

lemma assignTask_insert_unknown:
  assumes "db w = Some d" and "find (\<lambda>u. user_id u = workerId) (users d) = None"
  shows "assignTask_insert workerId task w = emit [Read] (print ''Worker not found.'' w)"
  using assms by (simp add: assignTask_insert_def)

lemma fold_max_ge: "x \<in> set xs \<Longrightarrow> x \<le> fold max xs (a::int)"
proof (induction xs arbitrary: a)
  case Nil
  then show ?case by simp
next
  case (Cons y ys)
  have mono: "a \<le> fold max zs a" for zs and a :: int
    by (induction zs arbitrary: a) (auto intro: order_trans [OF max.cobounded2])
  from Cons show ?case
    using mono [of "max y a" ys] by auto
qed

lemma assignTask_insert_known:
  assumes "db w = Some d" and "find (\<lambda>u. user_id u = workerId) (users d) = Some u" and "step_done w"
  shows "\<exists>t. db (assignTask_insert workerId task w) =
                Some (d\<lparr>tasks := tasks d @ [t], tasks_seq := task_id t\<rparr>) \<and>
              status t = ''pending'' \<and> worker_id t = workerId \<and>
              worker_username t = c_str (username u) \<and>
              task_description t = c_str task \<and> task_id t \<notin> task_id ` set (tasks d)"
proof -
  let ?i = "fold max (map task_id (tasks d)) (tasks_seq d) + 1"
  have "?i \<notin> task_id ` set (tasks d)"
  proof
    assume "?i \<in> task_id ` set (tasks d)"
    then have "?i \<in> set (map task_id (tasks d))"
      by simp
    from fold_max_ge [OF this, of "tasks_seq d"] show False
      by simp
  qed
  with assms show ?thesis
    by (intro exI [of _ "\<lparr>task_id = ?i, worker_id = workerId, worker_username = c_str (username u),
              task_description = c_str task, status = ''pending'',
              violation_comment = None, violation_timestamp = None,
              worker_report = None, worker_media = None\<rparr>"])
      (simp add: assignTask_insert_def insert_task_def emit_def print_def Let_def)
qed

section \<open>The primary key of the tasks is kept\<close>

text \<open>
  The ids of the tasks are distinct in the store that \<^verbatim>\<open>setupTables\<close> creates, and every
  statement of the program keeps them distinct: the insert takes a fresh id, the updates
  do not touch the id, the delete only removes rows.
\<close>

lemma primary_key_insert_task:
  assumes "distinct (map task_id (tasks d))"
  shows "distinct (map task_id (tasks (insert_task workerId uname task d)))"
proof -
  have "fold max (map task_id (tasks d)) (tasks_seq d) + 1 \<notin> set (map task_id (tasks d))"
  proof
    assume "fold max (map task_id (tasks d)) (tasks_seq d) + 1 \<in> set (map task_id (tasks d))"
    from fold_max_ge [OF this, of "tasks_seq d"] show False
      by simp
  qed
  with assms show ?thesis
    by (simp add: insert_task_def Let_def)
qed

lemma primary_key_kept:
  assumes "db w = Some d" and "distinct (map task_id (tasks d))"
  shows "\<forall>d'. db (assignTask_insert workerId task w) = Some d' \<longrightarrow> distinct (map task_id (tasks d'))"
    and "\<forall>d'. db (reportTask_update reportDesc savedFilePath taskId userId w) = Some d' \<longrightarrow>
           distinct (map task_id (tasks d'))"
    and "\<forall>d'. db (reportViolation_update ctime_now taskId status1 w) = Some d' \<longrightarrow>
           distinct (map task_id (tasks d'))"
    and "\<forall>d'. db (deleteTask_delete taskId w) = Some d' \<longrightarrow> distinct (map task_id (tasks d'))"
proof -
  have upd: "task_id \<circ> (\<lambda>t. if P t then f t else t) = task_id"
    if "\<And>t. task_id (f t) = task_id t" for P and f :: "task_row \<Rightarrow> task_row"
    using that by (auto simp: fun_eq_iff)
  show "\<forall>d'. db (assignTask_insert workerId task w) = Some d' \<longrightarrow> distinct (map task_id (tasks d'))"
    using assms primary_key_insert_task [OF assms(2)]
    by (auto simp: assignTask_insert_def emit_def print_def split: option.splits)
  show "\<forall>d'. db (reportTask_update reportDesc savedFilePath taskId userId w) = Some d' \<longrightarrow>
           distinct (map task_id (tasks d'))"
    using assms by (auto simp: reportTask_update_def emit_def print_def upd)
  show "\<forall>d'. db (reportViolation_update ctime_now taskId status1 w) = Some d' \<longrightarrow>
           distinct (map task_id (tasks d'))"
    using assms by (auto simp: reportViolation_update_def emit_def print_def upd Let_def)
  show "\<forall>d'. db (deleteTask_delete taskId w) = Some d' \<longrightarrow> distinct (map task_id (tasks d'))"
    using assms by (auto simp: deleteTask_delete_def emit_def print_def distinct_map_filter)
qed

section \<open>Reporting a violation (manager/manager.cpp, reportViolation)\<close>

text \<open>
  C3 at the console input \<^verbatim>\<open>1\<close>, \<^verbatim>\<open>violation\<close>, \<^verbatim>\<open>no helmet\<close>, on the store in which task
  1 is already completed. The status and the time stamp are written over the completed
  task; the comment that is stored is the empty text, and the line \<^verbatim>\<open>no helmet\<close> is
  still unread on the console when the function returns.
\<close>

theorem reportViolation_comment_never_read:
  "reportViolation ''Fri Oct 30 01:04:00 2026\<newline>''
     ((example_world ''1\<newline>violation\<newline>no helmet\<newline>'')
        \<lparr>db := Some (example_db\<lparr>tasks :=
             [\<lparr>task_id = 1, worker_id = 5, worker_username = ''alice'',
               task_description = ''Wear PPE'', status = ''completed'',
               violation_comment = None, violation_timestamp = None,
               worker_report = Some ''PPE confirmed'',
               worker_media = Some ''./uploads/task_1_user_5''\<rparr>]\<rparr>)\<rparr>) =
   Some \<lparr>db = Some (example_db\<lparr>tasks :=
             [\<lparr>task_id = 1, worker_id = 5, worker_username = ''alice'',
               task_description = ''Wear PPE'', status = ''violation'',
               violation_comment = Some [],
               violation_timestamp = Some ''Fri Oct 30 01:04:00 2026'',
               worker_report = Some ''PPE confirmed'',
               worker_media = Some ''./uploads/task_1_user_5''\<rparr>]\<rparr>),
         step_done = True,
         cin = \<lparr>buf = ''no helmet\<newline>'', failbit = False\<rparr>,
         cout = [''Task updated with violation info.''],
         events = [Read, Write]\<rparr>"
  by (simp add: eval_defs eval_more)

text \<open>
  For every task and status, whatever the task's status was: the update sets the
  status and the time stamp of the rows with the id (each up to its first NUL byte),
  sets their comment to the empty text, and leaves every other column and every other
  row as it was.
\<close>

lemma reportViolation_update_rows:
  assumes "db w = Some d" and "step_done w"
  shows "\<exists>d'. db (reportViolation_update ctime_now taskId status1 w) = Some d' \<and>
           tasks d' = map (\<lambda>t. if task_id t = taskId
                               then t\<lparr>status := c_str status1, violation_comment := Some [],
                                      violation_timestamp :=
                                        Some (c_str (if ctime_now \<noteq> [] \<and> last ctime_now = CHR 0x0A
                                                     then butlast ctime_now else ctime_now))\<rparr>
                               else t) (tasks d)"
  using assms by (simp add: reportViolation_update_def emit_def print_def c_str_def)

lemma isNumeric_iff: "isNumeric s \<longleftrightarrow> (\<forall>c\<in>set s. isdigit c)"
  by (induction s) auto

lemma getline_line:
  assumes "\<not> failbit s" and "buf s = l @ CHR 0x0A # rest" and "CHR 0x0A \<notin> set l"
  shows "getline str s = (l, \<lparr>buf = rest, failbit = False\<rparr>)"
proof -
  have "takeWhile (\<lambda>c. c \<noteq> CHR 0x0A) (l @ CHR 0x0A # rest) = l"
    using assms(3) by (induction l) auto
  with assms(1,2) show ?thesis
    by (simp add: getline_def Let_def)
qed

text \<open>
  C4. The next line on the console is \<open>s\<close>, empty or made of digits only. The loop
  prints the message for an invalid status and asks again on the rest of the input,
  with the store as it was (and at the end of the input it asks forever). A status
  that leaves the loop is never \<open>s\<close>, and the store has not changed when it does: no
  update is ever run with \<open>s\<close>.
\<close>

theorem reportViolation_status_rejects:
  assumes invalid: "s = [] \<or> (\<forall>c\<in>set s. isdigit c)"
    and line: "buf (cin w) = s @ CHR 0x0A # rest" "CHR 0x0A \<notin> set s"
    and good: "\<not> failbit (cin w)"
  shows "reportViolation_status status0 w =
           (if rest = [] then None
            else reportViolation_status s
                   (print ''Invalid input. Task status must be a non-numeric string.''
                      (w\<lparr>cin := \<lparr>buf = rest, failbit = False\<rparr>\<rparr>))) \<and>
         db (print ''Invalid input. Task status must be a non-numeric string.''
               (w\<lparr>cin := \<lparr>buf = rest, failbit = False\<rparr>\<rparr>)) = db w \<and>
         (\<forall>status1 w'. reportViolation_status status0 w = Some (status1, w') \<longrightarrow>
            status1 \<noteq> s \<and> db w' = db w)"
proof -
  from invalid have num: "s = [] \<or> isNumeric s"
    by (auto simp: isNumeric_iff)
  have g: "getline status0 (cin w) = (s, \<lparr>buf = rest, failbit = False\<rparr>)"
    using getline_line [OF good line] .
  have step: "reportViolation_status status0 w =
           (if rest = [] then None
            else reportViolation_status s
                   (print ''Invalid input. Task status must be a non-numeric string.''
                      (w\<lparr>cin := \<lparr>buf = rest, failbit = False\<rparr>\<rparr>)))"
    using num g by (subst reportViolation_status.simps) (simp split: if_splits)
  have never: "status1 \<noteq> s \<and> db w' = db w"
    if "reportViolation_status status0 w = Some (status1, w')" for status1 w'
    using reportViolation_status_Some [OF that] num by auto
  have frame: "db (print ''Invalid input. Task status must be a non-numeric string.''
               (w\<lparr>cin := \<lparr>buf = rest, failbit = False\<rparr>\<rparr>)) = db w"
    by (simp add: print_def)
  from step frame never show ?thesis
    by blast
qed

theorem reportViolation_status_rejects_witness:
  "reportViolation_status [] (example_world ''123\<newline>violation\<newline>'') =
     Some (''violation'',
           (example_world [])\<lparr>cout := [''Invalid input. Task status must be a non-numeric string.'']\<rparr>) \<and>
   db ((example_world [])\<lparr>cout := [''Invalid input. Task status must be a non-numeric string.'']\<rparr>) =
     db (example_world ''123\<newline>violation\<newline>'')"
proof -
  have invalid: "''123'' = [] \<or> (\<forall>c\<in>set ''123''. isdigit c)"
    by (simp add: isdigit_def)
  have line: "buf (cin (example_world ''123\<newline>violation\<newline>'')) = ''123'' @ CHR 0x0A # ''violation\<newline>''"
    "CHR 0x0A \<notin> set ''123''"
    by (simp_all add: example_world_def)
  have good: "\<not> failbit (cin (example_world ''123\<newline>violation\<newline>''))"
    by (simp add: example_world_def)
  from reportViolation_status_rejects [OF invalid line good, of "[]"]
  have "reportViolation_status [] (example_world ''123\<newline>violation\<newline>'') =
      reportViolation_status ''123''
        (print ''Invalid input. Task status must be a non-numeric string.''
           ((example_world ''123\<newline>violation\<newline>'')\<lparr>cin := \<lparr>buf = ''violation\<newline>'', failbit = False\<rparr>\<rparr>))"
    by simp
  also have "\<dots> = Some (''violation'',
           (example_world [])\<lparr>cout := [''Invalid input. Task status must be a non-numeric string.'']\<rparr>)"
    by (simp add: eval_defs eval_more)
  finally show ?thesis
    by (simp add: example_world_def)
qed

section \<open>Deleting a task (manager/manager.cpp, deleteTask)\<close>

text \<open>
  C8, as the claim states it, fails in its second half: the example store has no task
  7; \<^verbatim>\<open>deleteTask\<close> with the input 7 prints the success message. \<^verbatim>\<open>Failed to delete task.\<close>
  is printed only when \<^verbatim>\<open>sqlite3_step\<close> does not return \<^verbatim>\<open>SQLITE_DONE\<close>.
\<close>

theorem deleteTask_reports_success_example:
  "map task_id (tasks example_db) = [1] \<and>
   deleteTask (example_world ''7\<newline>'') =
     Some ((example_world [])\<lparr>cout := [''Task deleted successfully.''], events := [Read, Write]\<rparr>)"
  by (simp add: eval_defs eval_more)

text \<open>
  C8, amended. After the delete has stepped to completion, no row that
  \<^verbatim>\<open>viewTaskDetails\<close> shows, to the manager or to any worker, has the id \<open>taskId\<close>; and
  when no row had that id, the store is unchanged and the success message is printed.
\<close>

theorem deleteTask_delete_removes:
  assumes store: "db w = Some d" and stepped: "step_done w"
  shows "(\<forall>userId. \<exists>rows. viewTaskDetails (deleteTask_delete taskId w) userId True = Some rows \<and>
            taskId \<notin> task_id ` set rows) \<and>
         (\<forall>userId. \<exists>rows. viewTaskDetails (deleteTask_delete taskId w) userId False = Some rows \<and>
            taskId \<notin> task_id ` set rows) \<and>
         (taskId \<notin> task_id ` set (tasks d) \<longrightarrow>
            deleteTask_delete taskId w = emit [Write] (print ''Task deleted successfully.'' w))"
proof -
  have "taskId \<notin> task_id ` set (tasks d) \<Longrightarrow> filter (\<lambda>t. task_id t \<noteq> taskId) (tasks d) = tasks d"
    by (intro filter_True) auto
  with store stepped show ?thesis
    by (auto simp: deleteTask_delete_def viewTaskDetails_def emit_def print_def)
qed

theorem deleteTask_delete_removes_witness:
  "viewTaskDetails (deleteTask_delete 1 (example_world [])) 0 True = Some [] \<and>
   viewTaskDetails (deleteTask_delete 1 (example_world [])) 5 False = Some [] \<and>
   deleteTask_delete 7 (example_world []) =
     (example_world [])\<lparr>cout := [''Task deleted successfully.''], events := [Write]\<rparr>"
proof -
  have store: "db (example_world []) = Some example_db"
    and stepped: "step_done (example_world [])"
    by (simp_all add: example_world_def)
  have absent: "7 \<notin> task_id ` set (tasks example_db)"
    by (simp add: example_db_def)
  from deleteTask_delete_removes [OF store stepped, of 7] absent
  have "deleteTask_delete 7 (example_world []) =
      emit [Write] (print ''Task deleted successfully.'' (example_world []))"
    by blast
  moreover from deleteTask_delete_removes [OF store stepped, of 1]
  obtain all mine where "viewTaskDetails (deleteTask_delete 1 (example_world [])) 0 True = Some all"
    "viewTaskDetails (deleteTask_delete 1 (example_world [])) 5 False = Some mine"
    by blast
  ultimately show ?thesis
    by (simp add: eval_defs eval_more)
qed

section \<open>The mutex (worker/worker.cpp, db_mutex)\<close>

text \<open>The events that each function adds.\<close>

lemma reportTaskWork_shared_events:
  assumes "reportTaskWork_shared fs others userId w = Some w'"
  shows "\<exists>es. events w' = events w @ es \<and> accesses_locked False es \<and> writes_locked False es"
proof (cases "reportTaskWork_input userId w")
  case None
  with assms show ?thesis
    by (simp add: reportTaskWork_shared_def)
next
  case (Some res)
  show ?thesis
  proof (cases res)
    case (Inl w1)
    with Some assms have "w' = w1"
      by (simp add: reportTaskWork_shared_def)
    moreover from Some Inl have "events w1 = events w @ [Lock, Unlock]"
      by (auto simp: reportTaskWork_input_def reportTaskWork_fetch_def emit_def print_def
          split: option.splits prod.splits)
    ultimately show ?thesis
      by simp
  next
    case (Inr x)
    then obtain taskId reportDesc mediaPath w4 where x: "x = ((taskId, reportDesc, mediaPath), w4)"
      by (cases x) auto
    let ?w5 = "w4\<lparr>db := map_option others (db w4)\<rparr>"
    from reportTaskWork_input_Inr [OF Some [unfolded Inr x]]
    have ev: "events ?w5 = events w @ [Lock, Read, Unlock]"
      by auto
    from assms Some Inr x have "reportTask fs taskId userId reportDesc mediaPath ?w5 = Some w'"
      by (simp add: reportTaskWork_shared_def)
    then have "events w' = events ?w5 \<or> events w' = events ?w5 @ [Lock, Write, Unlock] \<or>
        events w' = events ?w5 @ [Lock, Unlock]"
      by (auto simp: reportTask_def reportTask_update_def emit_def print_def Let_def
          split: fs_result.splits option.splits if_splits)
    with ev show ?thesis
      by auto
  qed
qed

lemma reportTaskWork_events:
  assumes "reportTaskWork fs userId w = Some w'"
  shows "\<exists>es. events w' = events w @ es \<and> accesses_locked False es \<and> writes_locked False es"
  using assms reportTaskWork_shared_events [of fs "\<lambda>d. d" userId w w']
  by (simp add: reportTaskWork_alone)

lemma assignTask_insert_events:
  "\<exists>es. events (assignTask_insert workerId task w) = events w @ es \<and> Lock \<notin> set es"
  by (auto simp: assignTask_insert_def emit_def print_def split: option.splits)

lemma assignTask_events:
  assumes "assignTask w = Some w'"
  shows "\<exists>es. events w' = events w @ es \<and> Lock \<notin> set es"
proof -
  from assms obtain workerId w1 where
    p: "prompt_int (\<lambda>workerId. workerId < 0) ''Invalid input. Please try again.''
          (case db w of None \<Rightarrow> w | Some d \<Rightarrow> emit [Read] w) = Some (workerId, w1)"
    and w': "w' = assignTask_insert workerId (fst (read_line w1)) (snd (read_line w1))"
    by (auto simp: assignTask_def split: option.splits prod.splits)
  from prompt_int_Some [OF p] obtain e1 where e1: "events w1 = events w @ e1" "Lock \<notin> set e1"
    by (cases "db w") (auto simp: emit_def)
  have "events (snd (read_line w1)) = events w1"
    using read_line_frame [of w1 "fst (read_line w1)" "snd (read_line w1)"] by simp
  with assignTask_insert_events [of workerId "fst (read_line w1)" "snd (read_line w1)"] w'
  obtain e2 where e2: "events w' = events w1 @ e2" "Lock \<notin> set e2"
    by auto
  from e1 e2 have "events w' = events w @ (e1 @ e2)" "Lock \<notin> set (e1 @ e2)"
    by simp_all
  then show ?thesis
    by blast
qed

lemma reportViolation_events:
  assumes "reportViolation ctime_now w = Some w'"
  shows "\<exists>es. events w' = events w @ es \<and> Lock \<notin> set es"
proof -
  from assms obtain taskId w1 status1 w2 where
    p: "prompt_int (\<lambda>taskId. taskId < 0) ''Invalid input. Task ID must be a non-negative number.''
          (case db w of None \<Rightarrow> w | Some d \<Rightarrow> emit [Read] w) = Some (taskId, w1)"
    and s: "reportViolation_status [] w1 = Some (status1, w2)"
    and w': "w' = reportViolation_update ctime_now taskId status1 w2"
    by (auto simp: reportViolation_def split: option.splits prod.splits)
  from prompt_int_Some [OF p] obtain e1 where e1: "events w1 = events w @ e1" "Lock \<notin> set e1"
    by (cases "db w") (auto simp: emit_def)
  from reportViolation_status_Some [OF s] have "events w2 = events w1"
    by simp
  moreover have "\<exists>es. events (reportViolation_update ctime_now taskId status1 w2) = events w2 @ es \<and> Lock \<notin> set es"
    by (auto simp: reportViolation_update_def emit_def print_def Let_def split: option.splits)
  ultimately obtain e2 where e2: "events w' = events w1 @ e2" "Lock \<notin> set e2"
    using w' by auto
  from e1 e2 have "events w' = events w @ (e1 @ e2)" "Lock \<notin> set (e1 @ e2)"
    by simp_all
  then show ?thesis
    by blast
qed

lemma addRule_events:
  assumes "addRule strftime_now w = Some w'"
  shows "\<exists>es. events w' = events w @ es \<and> Lock \<notin> set es"
proof -
  from assms obtain rule1 w1 where s: "addRule_rule [] w = Some (rule1, w1)"
    by (auto simp: addRule_def split: option.splits)
  from addRule_rule_Some [OF s] have "events w1 = events w"
    by simp
  with assms s show ?thesis
    by (auto simp: addRule_def emit_def print_def split: option.splits if_splits)
qed

lemma deleteRule_events:
  assumes "deleteRule w = Some w'"
  shows "\<exists>es. events w' = events w @ es \<and> Lock \<notin> set es"
proof (cases "db w")
  case None
  with assms show ?thesis
    by (auto simp: deleteRule_def print_def)
next
  case (Some d)
  with assms obtain ruleId w1 where
    p: "prompt_int (\<lambda>ruleId. ruleId < 0) ''Invalid input. Rule ID must be a non-negative number.''
          (emit [Read] w) = Some (ruleId, w1)"
    and w': "w' = deleteRule_delete ruleId w1"
    by (auto simp: deleteRule_def split: option.splits)
  from prompt_int_Some [OF p] have "events w1 = events w @ [Read]"
    by (simp add: emit_def)
  moreover have "\<exists>es. events (deleteRule_delete ruleId w1) = events w1 @ es \<and> Lock \<notin> set es"
    by (auto simp: deleteRule_delete_def emit_def print_def split: option.splits)
  ultimately obtain e2 where "events w' = events w @ ([Read] @ e2)" "Lock \<notin> set ([Read] @ e2)"
    using w' by auto
  then show ?thesis
    by blast
qed

lemma deleteTask_events:
  assumes "deleteTask w = Some w'"
  shows "\<exists>es. events w' = events w @ es \<and> Lock \<notin> set es"
proof (cases "db w")
  case None
  with assms show ?thesis
    by (auto simp: deleteTask_def print_def)
next
  case (Some d)
  with assms obtain taskId w1 where
    p: "prompt_int (\<lambda>taskId. taskId < 0) ''Invalid input. Task ID must be a non-negative number.''
          (emit [Read] w) = Some (taskId, w1)"
    and w': "w' = deleteTask_delete taskId w1"
    by (auto simp: deleteTask_def split: option.splits)
  from prompt_int_Some [OF p] have "events w1 = events w @ [Read]"
    by (simp add: emit_def)
  moreover have "\<exists>es. events (deleteTask_delete taskId w1) = events w1 @ es \<and> Lock \<notin> set es"
    by (auto simp: deleteTask_delete_def emit_def print_def split: option.splits)
  ultimately obtain e2 where "events w' = events w @ ([Read] @ e2)" "Lock \<notin> set ([Read] @ e2)"
    using w' by auto
  then show ?thesis
    by blast
qed

lemma GiveRuleFeedback_events:
  assumes "GiveRuleFeedback w = Some w'"
  shows "\<exists>es. events w' = events w @ es \<and> Lock \<notin> set es"
proof (cases "db w")
  case None
  with assms show ?thesis
    by (auto simp: GiveRuleFeedback_def print_def)
next
  case (Some d)
  with assms obtain ruleId w1 where
    p: "prompt_int (\<lambda>ruleId. ruleId < 0) ''Invalid Rule ID. Try again.'' (emit [Read] w) = Some (ruleId, w1)"
    and w': "w' = GiveRuleFeedback_update ruleId (fst (read_line w1)) (snd (read_line w1))"
    by (auto simp: GiveRuleFeedback_def split: option.splits prod.splits)
  from prompt_int_Some [OF p] have "events w1 = events w @ [Read]"
    by (simp add: emit_def)
  moreover have "events (snd (read_line w1)) = events w1"
    using read_line_frame [of w1 "fst (read_line w1)" "snd (read_line w1)"] by simp
  moreover have "\<exists>es. events (GiveRuleFeedback_update ruleId fb v) = events v @ es \<and> Lock \<notin> set es" for fb v
    by (auto simp: GiveRuleFeedback_update_def emit_def print_def split: option.splits)
  ultimately obtain e2 where "events w' = events w @ ([Read] @ e2)" "Lock \<notin> set ([Read] @ e2)"
    using w' by (metis append.assoc event.distinct(3) set_ConsD set_append Un_iff empty_iff empty_set)
  then show ?thesis
    by blast
qed

text \<open>
  C9, as the claim states it, fails: \<^verbatim>\<open>assignTask\<close> runs its two \<^verbatim>\<open>SELECT\<close>s and its
  \<^verbatim>\<open>INSERT\<close> without taking \<^verbatim>\<open>db_mutex\<close>.
\<close>

theorem assignTask_writes_unlocked:
  "map_option events (assignTask (example_world ''5\<newline>Wear PPE\<newline>'')) = Some [Read, Read, Write] \<and>
   \<not> writes_locked False [Read, Read, Write]"
  by (simp add: eval_defs eval_more)

text \<open>
  C9, amended. Every statement of \<^verbatim>\<open>reportTaskWork\<close>, the listing \<^verbatim>\<open>SELECT\<close> and the
  commit of the report, runs while \<^verbatim>\<open>db_mutex\<close> is held, whatever other sessions do to
  the store. \<^verbatim>\<open>assignTask\<close>, \<^verbatim>\<open>reportViolation\<close>, \<^verbatim>\<open>addRule\<close>, \<^verbatim>\<open>deleteRule\<close>, \<^verbatim>\<open>deleteTask\<close>
  and \<^verbatim>\<open>GiveRuleFeedback\<close> never take the mutex: their writes are not ordered by it.
\<close>

theorem lock_discipline:
  "(reportTaskWork_shared fs others userId w = Some w' \<longrightarrow>
      (\<exists>es. events w' = events w @ es \<and> accesses_locked False es \<and> writes_locked False es)) \<and>
   (reportTaskWork fs userId w = Some w' \<longrightarrow>
      (\<exists>es. events w' = events w @ es \<and> accesses_locked False es \<and> writes_locked False es)) \<and>
   (assignTask w = Some w' \<longrightarrow> (\<exists>es. events w' = events w @ es \<and> Lock \<notin> set es)) \<and>
   (reportViolation ctime_now w = Some w' \<longrightarrow> (\<exists>es. events w' = events w @ es \<and> Lock \<notin> set es)) \<and>
   (addRule strftime_now w = Some w' \<longrightarrow> (\<exists>es. events w' = events w @ es \<and> Lock \<notin> set es)) \<and>
   (deleteRule w = Some w' \<longrightarrow> (\<exists>es. events w' = events w @ es \<and> Lock \<notin> set es)) \<and>
   (deleteTask w = Some w' \<longrightarrow> (\<exists>es. events w' = events w @ es \<and> Lock \<notin> set es)) \<and>
   (GiveRuleFeedback w = Some w' \<longrightarrow> (\<exists>es. events w' = events w @ es \<and> Lock \<notin> set es))"
proof (intro conjI impI)
  assume "reportTaskWork_shared fs others userId w = Some w'"
  then show "\<exists>es. events w' = events w @ es \<and> accesses_locked False es \<and> writes_locked False es"
    by (rule reportTaskWork_shared_events)
next
  assume "reportTaskWork fs userId w = Some w'"
  then show "\<exists>es. events w' = events w @ es \<and> accesses_locked False es \<and> writes_locked False es"
    by (rule reportTaskWork_events)
next
  assume "assignTask w = Some w'"
  then show "\<exists>es. events w' = events w @ es \<and> Lock \<notin> set es"
    by (rule assignTask_events)
next
  assume "reportViolation ctime_now w = Some w'"
  then show "\<exists>es. events w' = events w @ es \<and> Lock \<notin> set es"
    by (rule reportViolation_events)
next
  assume "addRule strftime_now w = Some w'"
  then show "\<exists>es. events w' = events w @ es \<and> Lock \<notin> set es"
    by (rule addRule_events)
next
  assume "deleteRule w = Some w'"
  then show "\<exists>es. events w' = events w @ es \<and> Lock \<notin> set es"
    by (rule deleteRule_events)
next
  assume "deleteTask w = Some w'"
  then show "\<exists>es. events w' = events w @ es \<and> Lock \<notin> set es"
    by (rule deleteTask_events)
next
  assume "GiveRuleFeedback w = Some w'"
  then show "\<exists>es. events w' = events w @ es \<and> Lock \<notin> set es"
    by (rule GiveRuleFeedback_events)
qed

theorem lock_discipline_witness:
  "(\<exists>w'. reportTaskWork_shared example_copied example_manager_deletes 5
            (example_world ''1\<newline>PPE confirmed\<newline>/tmp/img.jpg\<newline>'') = Some w' \<and>
          accesses_locked False (events w') \<and> writes_locked False (events w')) \<and>
   (\<exists>w'. reportTaskWork example_copied 5
            (example_world ''1\<newline>PPE confirmed\<newline>/tmp/img.jpg\<newline>'') = Some w' \<and>
          events w' = [Lock, Read, Unlock, Lock, Write, Unlock] \<and>
          accesses_locked False (events w') \<and> writes_locked False (events w')) \<and>
   (\<exists>w'. assignTask (example_world ''5\<newline>Wear PPE\<newline>'') = Some w' \<and> Lock \<notin> set (events w')) \<and>
   (\<exists>w'. reportViolation ''Fri Oct 30 01:04:00 2026\<newline>''
            (example_world ''1\<newline>violation\<newline>'') = Some w' \<and> Lock \<notin> set (events w')) \<and>
   (\<exists>w'. addRule ''2026-10-30 01:04:00'' (example_world ''Wear a helmet\<newline>'') = Some w' \<and>
          Lock \<notin> set (events w')) \<and>
   (\<exists>w'. deleteRule (example_world ''1\<newline>'') = Some w' \<and> Lock \<notin> set (events w')) \<and>
   (\<exists>w'. deleteTask (example_world ''1\<newline>'') = Some w' \<and> Lock \<notin> set (events w')) \<and>
   (\<exists>w'. GiveRuleFeedback (example_world ''1\<newline>unclear\<newline>'') = Some w' \<and>
          Lock \<notin> set (events w'))"
proof -
  have none: "events (example_world input) = []" for input
    by (simp add: example_world_def)
  have "\<exists>w'. reportTaskWork_shared example_copied example_manager_deletes 5
      (example_world ''1\<newline>PPE confirmed\<newline>/tmp/img.jpg\<newline>'') = Some w'"
    by (simp add: eval_defs)
  then obtain w0 where r0: "reportTaskWork_shared example_copied example_manager_deletes 5
      (example_world ''1\<newline>PPE confirmed\<newline>/tmp/img.jpg\<newline>'') = Some w0" ..
  with lock_discipline [where w' = w0 and fs = example_copied and others = example_manager_deletes
      and userId = 5 and w = "example_world ''1\<newline>PPE confirmed\<newline>/tmp/img.jpg\<newline>''"]
  have c0: "accesses_locked False (events w0) \<and> writes_locked False (events w0)"
    by (auto simp: none)
  have "\<exists>w'. reportTaskWork example_copied 5
      (example_world ''1\<newline>PPE confirmed\<newline>/tmp/img.jpg\<newline>'') = Some w' \<and>
      events w' = [Lock, Read, Unlock, Lock, Write, Unlock]"
    by (simp add: eval_defs)
  then obtain w1 where r1: "reportTaskWork example_copied 5
      (example_world ''1\<newline>PPE confirmed\<newline>/tmp/img.jpg\<newline>'') = Some w1"
    and e1: "events w1 = [Lock, Read, Unlock, Lock, Write, Unlock]"
    by blast
  from r1 lock_discipline [where w' = w1 and fs = example_copied and userId = 5
      and w = "example_world ''1\<newline>PPE confirmed\<newline>/tmp/img.jpg\<newline>''"]
  have c1: "accesses_locked False (events w1) \<and> writes_locked False (events w1)"
    by (auto simp: none)
  have "\<exists>w'. assignTask (example_world ''5\<newline>Wear PPE\<newline>'') = Some w'"
    by (simp add: eval_defs eval_more)
  then obtain w2 where r2: "assignTask (example_world ''5\<newline>Wear PPE\<newline>'') = Some w2" ..
  with lock_discipline [where w' = w2 and w = "example_world ''5\<newline>Wear PPE\<newline>''"]
  have c2: "Lock \<notin> set (events w2)"
    by (auto simp: none)
  have "\<exists>w'. reportViolation ''Fri Oct 30 01:04:00 2026\<newline>''
      (example_world ''1\<newline>violation\<newline>'') = Some w'"
    by (simp add: eval_defs eval_more)
  then obtain w3 where r3: "reportViolation ''Fri Oct 30 01:04:00 2026\<newline>''
      (example_world ''1\<newline>violation\<newline>'') = Some w3" ..
  with lock_discipline [where w' = w3 and ctime_now = "''Fri Oct 30 01:04:00 2026\<newline>''"
      and w = "example_world ''1\<newline>violation\<newline>''"]
  have c3: "Lock \<notin> set (events w3)"
    by (auto simp: none)
  have "\<exists>w'. addRule ''2026-10-30 01:04:00'' (example_world ''Wear a helmet\<newline>'') = Some w'"
    by (simp add: eval_defs eval_more)
  then obtain w4 where r4: "addRule ''2026-10-30 01:04:00'' (example_world ''Wear a helmet\<newline>'') = Some w4" ..
  with lock_discipline [where w' = w4 and strftime_now = "''2026-10-30 01:04:00''"
      and w = "example_world ''Wear a helmet\<newline>''"]
  have c4: "Lock \<notin> set (events w4)"
    by (auto simp: none)
  have "\<exists>w'. deleteRule (example_world ''1\<newline>'') = Some w'"
    by (simp add: eval_defs eval_more)
  then obtain w5 where r5: "deleteRule (example_world ''1\<newline>'') = Some w5" ..
  with lock_discipline [where w' = w5 and w = "example_world ''1\<newline>''"]
  have c5: "Lock \<notin> set (events w5)"
    by (auto simp: none)
  have "\<exists>w'. deleteTask (example_world ''1\<newline>'') = Some w'"
    by (simp add: eval_defs eval_more)
  then obtain w6 where r6: "deleteTask (example_world ''1\<newline>'') = Some w6" ..
  with lock_discipline [where w' = w6 and w = "example_world ''1\<newline>''"]
  have c6: "Lock \<notin> set (events w6)"
    by (auto simp: none)
  have "\<exists>w'. GiveRuleFeedback (example_world ''1\<newline>unclear\<newline>'') = Some w'"
    by (simp add: eval_defs eval_more)
  then obtain w7 where r7: "GiveRuleFeedback (example_world ''1\<newline>unclear\<newline>'') = Some w7" ..
  with lock_discipline [where w' = w7 and w = "example_world ''1\<newline>unclear\<newline>''"]
  have c7: "Lock \<notin> set (events w7)"
    by (auto simp: none)
  from r0 c0 r1 e1 c1 r2 c2 r3 c3 r4 c4 r5 c5 r6 c6 r7 c7 show ?thesis
    by blast
qed

end
